theory Spec2Isabelle
  imports Complex_Main "HOL-Library.Sublist" "HOL-Library.AList"
begin

section \<open>Task model\<close>

text \<open>
  Source: \<^verbatim>\<open>backend/reasoning/meta_reasoning.js\<close>.

  A task (a plan step) is a JavaScript object. The engine reads its \<^verbatim>\<open>id\<close>,
  \<^verbatim>\<open>type\<close>, \<^verbatim>\<open>dependencies\<close>, \<^verbatim>\<open>priority\<close> and \<^verbatim>\<open>optional\<close> fields;
  \<^verbatim>\<open>description\<close>, \<^verbatim>\<open>input\<close> and \<^verbatim>\<open>output\<close> are free text that is only logged and are
  left out. Identifiers, types and approach labels are strings, as in the source. The
  empty string is the falsy identifier of \<^verbatim>\<open>step.id || ...\<close>. Field \<^verbatim>\<open>id\<close> is named
  \<open>task_id\<close> and \<^verbatim>\<open>type\<close> is named \<open>task_type\<close>, since \<open>id\<close> is a constant of HOL.
  A fixing step has no priority in the source; no code reads the priority of a plan step
  after planning, and the model stores 0 there.
\<close>

datatype task_state = PENDING | IN_PROGRESS | COMPLETED | FAILED | SKIPPED

record task =
  task_id :: string
  task_type :: string
  dependencies :: "string list"
  priority :: int
  optional :: bool

text \<open>Decimal digits of an index, for the template string \<^verbatim>\<open>`task-${index}`\<close>.\<close>

fun decimal :: "nat \<Rightarrow> string" where
  "decimal n = (if n < 10 then [''0123456789'' ! n]
                else decimal (n div 10) @ [''0123456789'' ! (n mod 10)])"

declare decimal.simps [simp del]

text \<open>\<^verbatim>\<open>String.prototype.includes\<close>: the argument occurs as a contiguous substring.\<close>

fun str_includes :: "string \<Rightarrow> string \<Rightarrow> bool" where
  "str_includes [] sub = (sub = [])"
| "str_includes (c # cs) sub = (prefix sub (c # cs) \<or> str_includes cs sub)"

text \<open>\<^verbatim>\<open>String.prototype.toLowerCase\<close> on the ASCII letters.\<close>

definition lower_char :: "char \<Rightarrow> char" where
  "lower_char c =
     (case map_of (zip ''ABCDEFGHIJKLMNOPQRSTUVWXYZ'' ''abcdefghijklmnopqrstuvwxyz'') c of
        Some d \<Rightarrow> d
      | None \<Rightarrow> c)"

definition toLowerCase :: "string \<Rightarrow> string" where
  "toLowerCase s = map lower_char s"

section \<open>Reasoning state manager\<close>

text \<open>
  A result object returned by a collaborator. The engine reads \<^verbatim>\<open>success\<close> (for its
  truthiness) and \<^verbatim>\<open>response\<close>; the remaining payload is opaque to it.
\<close>

record step_result =
  success :: bool
  response :: "string option"
  res_error :: "string option"

text \<open>
  The error that \<^verbatim>\<open>recordFailure\<close> is given, and the value it stores: a string, an object
  with a string \<^verbatim>\<open>message\<close> property (an \<^verbatim>\<open>Error\<close>), or another value, one that has
  neither a \<^verbatim>\<open>message\<close> nor an \<^verbatim>\<open>includes\<close> method.
\<close>

datatype js_value = Str string | ErrorObject string | PlainObject

text \<open>
  \<^verbatim>\<open>error.message || error\<close>: the message if it is a non-empty string, else the value
  itself; the empty string is falsy, and a string has no \<^verbatim>\<open>message\<close>.
\<close>

fun messageOr :: "js_value \<Rightarrow> js_value" where
  "messageOr (ErrorObject m) = (if m \<noteq> [] then Str m else ErrorObject m)"
| "messageOr (Str t) = Str t"
| "messageOr PlainObject = PlainObject"

text \<open>One entry of a task's failure history, as pushed by \<^verbatim>\<open>recordFailure\<close>.\<close>

record failure =
  fa_approach :: string
  fa_error :: js_value
  fa_timestamp :: nat

text \<open>
  A value of the \<^verbatim>\<open>tasks\<close> map. \<^verbatim>\<open>initializePlan\<close> and \<^verbatim>\<open>updateTaskState\<close> store
  objects; \<^verbatim>\<open>restoreCheckpoint\<close> stores the values of a checkpoint's \<^verbatim>\<open>taskStates\<close> map,
  which are state strings or \<^verbatim>\<open>undefined\<close> (\<open>Prim None\<close>). In an object, \<open>o_step\<close> holds
  the fields spread in from the plan step; it is \<open>None\<close> for an object that
  \<^verbatim>\<open>updateTaskState\<close> built by spreading a string.
\<close>

record task_obj =
  o_step :: "task option"
  state :: task_state
  startTime :: "nat option"
  endTime :: "nat option"
  lastUpdated :: "nat option"

datatype task_val = Obj task_obj | Prim "task_state option"

text \<open>
  A checkpoint. \<^verbatim>\<open>new Map(this.approaches)\<close> copies the map, not the arrays it maps to:
  \<open>approachesSnapshot\<close> holds the same array references as the live map. The arrays live
  in the store \<open>arrays\<close> of the manager; a reference is an index into it.
\<close>

record checkpoint =
  name :: string
  timestamp :: nat
  taskStates :: "(string \<times> task_state option) list"
  resultsSnapshot :: "(string \<times> step_result) list"
  approachesSnapshot :: "(string \<times> nat) list"

text \<open>
  The manager. A JavaScript \<^verbatim>\<open>Map\<close> is an association list in insertion order:
  \<open>map_of\<close> is \<^verbatim>\<open>get\<close> and \<open>AList.update\<close> is \<^verbatim>\<open>set\<close> (an existing key keeps its place).
\<close>

record rsm =
  tasks :: "(string \<times> task_val) list"
  results :: "(string \<times> step_result) list"
  approaches :: "(string \<times> nat) list"
  checkpoints :: "checkpoint list"
  arrays :: "failure list list"

datatype error = TypeError

definition constructor :: rsm where
  "constructor = \<lparr>tasks = [], results = [], approaches = [], checkpoints = [], arrays = []\<rparr>"

text \<open>\<^verbatim>\<open>task.state\<close>: the field of an object; a string has no such property.\<close>

fun state_of :: "task_val \<Rightarrow> task_state option" where
  "state_of (Obj t) = Some (state t)"
| "state_of (Prim v) = None"

fun truthy :: "task_val \<Rightarrow> bool" where
  "truthy (Obj t) = True"
| "truthy (Prim None) = False"
| "truthy (Prim (Some v)) = True"

definition has_undefined :: "(string \<times> task_val) list \<Rightarrow> bool" where
  "has_undefined m = list_ex (\<lambda>kv. snd kv = Prim None) m"

text \<open>The snapshot object that \<^verbatim>\<open>createCheckpoint\<close> builds.\<close>

definition snapshot :: "string \<Rightarrow> nat \<Rightarrow> rsm \<Rightarrow> checkpoint" where
  "snapshot nm now s =
     \<lparr>name = nm, timestamp = now,
      taskStates = map (\<lambda>kv. (fst kv, state_of (snd kv))) (tasks s),
      resultsSnapshot = results s,
      approachesSnapshot = approaches s\<rparr>"

text \<open>
  \<^verbatim>\<open>createCheckpoint\<close>. Reading \<^verbatim>\<open>task.state\<close> of an \<^verbatim>\<open>undefined\<close> map value throws a
  TypeError before anything is pushed. Every operation returns the manager as it is left
  behind, together with its return value or the error it threw.
\<close>

definition createCheckpoint :: "string \<Rightarrow> nat \<Rightarrow> rsm \<Rightarrow> (error + unit) \<times> rsm" where
  "createCheckpoint nm now s =
     (if has_undefined (tasks s) then (Inl TypeError, s)
      else
        let pushed = checkpoints s @ [snapshot nm now s]
        in (Inr (), s\<lparr>checkpoints := (if length pushed > 10 then tl pushed else pushed)\<rparr>))"

definition restoreCheckpoint :: "string \<Rightarrow> rsm \<Rightarrow> bool \<times> rsm" where
  "restoreCheckpoint nm s =
     (case find (\<lambda>cp. name cp = nm) (checkpoints s) of
        None \<Rightarrow> (False, s)
      | Some cp \<Rightarrow>
          (True, s\<lparr>tasks := map (\<lambda>kv. (fst kv, Prim (snd kv))) (taskStates cp),
                   results := resultsSnapshot cp,
                   approaches := approachesSnapshot cp\<rparr>))"

text \<open>\<^verbatim>\<open>!task.startTime\<close>: null, undefined and 0 are falsy.\<close>

definition unset :: "nat option \<Rightarrow> bool" where
  "unset t = (t = None \<or> t = Some 0)"

definition updateTaskState :: "string \<Rightarrow> task_state \<Rightarrow> nat \<Rightarrow> rsm \<Rightarrow> bool \<times> rsm" where
  "updateTaskState taskId newState now s =
     (case map_of (tasks s) taskId of
        None \<Rightarrow> (False, s)
      | Some v \<Rightarrow>
          if \<not> truthy v then (False, s)
          else
            let old = (case v of
                         Obj t \<Rightarrow> t
                       | Prim p \<Rightarrow> \<lparr>o_step = None, state = newState, startTime = None,
                                    endTime = None, lastUpdated = None\<rparr>);
                t1 = old\<lparr>state := newState, lastUpdated := Some now\<rparr>;
                t2 = (if newState = IN_PROGRESS \<and> unset (startTime old)
                      then t1\<lparr>startTime := Some now\<rparr> else t1);
                t3 = (if newState \<in> set [COMPLETED, FAILED, SKIPPED] \<and> unset (endTime old)
                      then t2\<lparr>endTime := Some now\<rparr> else t2)
            in (True, s\<lparr>tasks := AList.update taskId (Obj t3) (tasks s)\<rparr>))"

definition recordSuccess :: "string \<Rightarrow> step_result \<Rightarrow> nat \<Rightarrow> rsm \<Rightarrow> (error + bool) \<times> rsm" where
  "recordSuccess taskId res now s =
     (let s1 = snd (updateTaskState taskId COMPLETED now s);
          s2 = s1\<lparr>results := AList.update taskId res (results s1)\<rparr>;
          c = createCheckpoint (''task_'' @ taskId @ ''_completed'') now s2
      in (case fst c of Inl e \<Rightarrow> (Inl e, snd c) | Inr u \<Rightarrow> (Inr True, snd c)))"

text \<open>Reading an array of the store; \<^verbatim>\<open>push\<close> on an array of the store.\<close>

definition deref :: "failure list list \<Rightarrow> nat \<Rightarrow> failure list" where
  "deref st a = (if a < length st then st ! a else [])"

definition push :: "nat \<Rightarrow> failure \<Rightarrow> failure list list \<Rightarrow> failure list list" where
  "push a f st = st[a := deref st a @ [f]]"

text \<open>
  \<^verbatim>\<open>recordFailure\<close>. The entry holds \<^verbatim>\<open>error.message || error\<close>. A task with no
  history gets a fresh empty array; the entry is then pushed onto the array the map refers
  to, in place.
\<close>

definition recordFailure :: "string \<Rightarrow> string \<Rightarrow> js_value \<Rightarrow> nat \<Rightarrow> rsm \<Rightarrow> (error + bool) \<times> rsm" where
  "recordFailure taskId appr err now s =
     (let s1 = snd (updateTaskState taskId FAILED now s);
          s2 = (if map_of (approaches s1) taskId = None
                then s1\<lparr>approaches := AList.update taskId (length (arrays s1)) (approaches s1),
                        arrays := arrays s1 @ [[]]\<rparr>
                else s1);
          s3 = (case map_of (approaches s2) taskId of
                  None \<Rightarrow> s2
                | Some a \<Rightarrow> s2\<lparr>arrays := push a \<lparr>fa_approach = appr, fa_error = messageOr err,
                                                    fa_timestamp = now\<rparr> (arrays s2)\<rparr>);
          c = createCheckpoint (''task_'' @ taskId @ ''_failed'') now s3
      in (case fst c of Inl e \<Rightarrow> (Inl e, snd c) | Inr u \<Rightarrow> (Inr True, snd c)))"

text \<open>
  The manager after the statements of \<^verbatim>\<open>recordFailure\<close> that precede its checkpoint
  (lemma \<open>recordFailure_via\<close> below).
\<close>

definition failurePushed :: "string \<Rightarrow> string \<Rightarrow> js_value \<Rightarrow> nat \<Rightarrow> rsm \<Rightarrow> rsm" where
  "failurePushed taskId appr err now s =
     (let s1 = snd (updateTaskState taskId FAILED now s);
          s2 = (if map_of (approaches s1) taskId = None
                then s1\<lparr>approaches := AList.update taskId (length (arrays s1)) (approaches s1),
                        arrays := arrays s1 @ [[]]\<rparr>
                else s1)
      in (case map_of (approaches s2) taskId of
            None \<Rightarrow> s2
          | Some a \<Rightarrow> s2\<lparr>arrays := push a \<lparr>fa_approach = appr, fa_error = messageOr err,
                                              fa_timestamp = now\<rparr> (arrays s2)\<rparr>))"

text \<open>
  \<^verbatim>\<open>initializePlan\<close> reads only \<^verbatim>\<open>plan.steps\<close>. Every step is registered as a fresh
  object in state \<^verbatim>\<open>pending\<close>, whatever the map held for its identifier before.
\<close>

definition taskIdOf :: "task \<Rightarrow> nat \<Rightarrow> string" where
  "taskIdOf step index = (if task_id step \<noteq> [] then task_id step else ''task-'' @ decimal index)"

definition register :: "nat \<times> task \<Rightarrow> (string \<times> task_val) list \<Rightarrow> (string \<times> task_val) list" where
  "register is m =
     (let taskId = taskIdOf (snd is) (fst is)
      in AList.update taskId
           (Obj \<lparr>o_step = Some ((snd is)\<lparr>task_id := taskId\<rparr>), state = PENDING,
                 startTime = None, endTime = None, lastUpdated = None\<rparr>) m)"

definition initializePlan :: "task list \<Rightarrow> nat \<Rightarrow> rsm \<Rightarrow> (error + unit) \<times> rsm" where
  "initializePlan stps now s =
     createCheckpoint ''plan_initialized'' now
       (s\<lparr>tasks := fold register (enumerate 0 stps) (tasks s)\<rparr>)"

text \<open>\<^verbatim>\<open>getTaskStatus\<close>: counts per state; \<^verbatim>\<open>task.state\<close> of \<^verbatim>\<open>undefined\<close> throws.\<close>

record status =
  count_pending :: nat
  count_inProgress :: nat
  count_completed :: nat
  count_failed :: nat
  count_skipped :: nat
  count_total :: nat

definition count_state :: "task_state \<Rightarrow> (string \<times> task_val) list \<Rightarrow> nat" where
  "count_state st m = length (filter (\<lambda>kv. state_of (snd kv) = Some st) m)"

definition getTaskStatus :: "rsm \<Rightarrow> error + status" where
  "getTaskStatus s =
     (if has_undefined (tasks s) then Inl TypeError
      else Inr \<lparr>count_pending = count_state PENDING (tasks s),
                count_inProgress = count_state IN_PROGRESS (tasks s),
                count_completed = count_state COMPLETED (tasks s),
                count_failed = count_state FAILED (tasks s),
                count_skipped = count_state SKIPPED (tasks s),
                count_total = length (tasks s)\<rparr>)"

section \<open>Alternative-approach advisor\<close>

record suggestion =
  approach :: string
  confidence :: real
  responseType :: "string option"
  previousApproaches :: "string list option"

text \<open>The execution context; the advisor reads \<^verbatim>\<open>context?.userMsg || ''\<close>.\<close>

record exec_context =
  userMsg :: string

definition suggest :: "string \<Rightarrow> real \<Rightarrow> string list \<Rightarrow> suggestion" where
  "suggest a c tried = \<lparr>approach = a, confidence = c, responseType = None,
                        previousApproaches = Some tried\<rparr>"

text \<open>The loop over \<^verbatim>\<open>toolPriorities\<close>: the first tool that was not tried.\<close>

fun firstUntried :: "(string \<times> real) list \<Rightarrow> string list \<Rightarrow> (string \<times> real) option" where
  "firstUntried [] tried = None"
| "firstUntried (tc # rest) tried =
     (if \<not> List.member tried (fst tc) then Some tc else firstUntried rest tried)"

definition toolPriorities :: "(string \<times> real) list" where
  "toolPriorities = [(''WEB_SEARCH'', 0.9), (''READ_URL'', 0.8), (''MEMORY_CHECK'', 0.7),
                     (''REASONING_TOOL'', 0.6)]"

definition suggestAlternativeInfoGathering :: "string list \<Rightarrow> suggestion" where
  "suggestAlternativeInfoGathering tried =
     (case firstUntried toolPriorities tried of
        Some tc \<Rightarrow> suggest (fst tc) (snd tc) tried
      | None \<Rightarrow>
          if \<not> List.member tried ''DIRECT_SYNTHESIS'' then suggest ''DIRECT_SYNTHESIS'' 0.7 tried
          else suggest ''ASK_CLARIFICATION'' 0.5 tried)"

definition suggestAlternativeTool :: "string list \<Rightarrow> exec_context \<Rightarrow> suggestion" where
  "suggestAlternativeTool tried ctx =
     (if str_includes (toLowerCase (userMsg ctx)) ''github'' \<and> \<not> List.member tried ''READ_URL''
      then suggest ''READ_URL'' 0.8 tried
      else if \<not> List.member tried ''REASONING_TOOL'' \<and> List.member tried ''WEB_SEARCH''
      then suggest ''REASONING_TOOL'' 0.7 tried
      else suggest ''ASK_CLARIFICATION'' 0.5 tried)"

text \<open>\<^verbatim>\<open>this.approaches.get(taskId) || []\<close>, read through the array reference.\<close>

definition failedApproaches :: "rsm \<Rightarrow> string \<Rightarrow> failure list" where
  "failedApproaches s taskId =
     (case map_of (approaches s) taskId of None \<Rightarrow> [] | Some a \<Rightarrow> deref (arrays s) a)"

text \<open>\<^verbatim>\<open>task.type\<close>: defined only for an object that carries the step's fields.\<close>

fun type_of :: "task_val \<Rightarrow> string option" where
  "type_of (Obj t) = (case o_step t of None \<Rightarrow> None | Some st \<Rightarrow> Some (task_type st))"
| "type_of (Prim v) = None"

text \<open>\<^verbatim>\<open>a.error || ''\<close>: the empty string is the only falsy value among these.\<close>

fun orEmpty :: "js_value \<Rightarrow> js_value" where
  "orEmpty (Str t) = (if t \<noteq> [] then Str t else Str [])"
| "orEmpty (ErrorObject m) = ErrorObject m"
| "orEmpty PlainObject = PlainObject"

text \<open>
  \<^verbatim>\<open>errorPatterns.some(e => e.includes(p) || ...)\<close>. \<^verbatim>\<open>Array.prototype.some\<close> visits the
  entries in order and stops at the first one for which the callback returns true. On an
  entry that is not a string \<^verbatim>\<open>e.includes\<close> is not a function, and the call throws a
  \<^verbatim>\<open>TypeError\<close>.
\<close>

fun someIncludes :: "string list \<Rightarrow> js_value list \<Rightarrow> error + bool" where
  "someIncludes ps [] = Inr False"
| "someIncludes ps (Str e # es) =
     (if list_ex (str_includes e) ps then Inr True else someIncludes ps es)"
| "someIncludes ps (ErrorObject m # es) = Inl TypeError"
| "someIncludes ps (PlainObject # es) = Inl TypeError"

text \<open>The two checks of the error patterns: a URL error, then a parameter mismatch.\<close>

definition urlError :: "js_value list \<Rightarrow> error + bool" where
  "urlError errs = someIncludes [''Invalid URL'', ''undefined''] errs"

definition parameterError :: "js_value list \<Rightarrow> error + bool" where
  "parameterError errs =
     (case someIncludes [''Missing required parameter'', ''parameter''] errs of
        Inl err \<Rightarrow> Inl err
      | Inr mismatch \<Rightarrow> if mismatch then someIncludes [''problem''] errs else Inr False)"

text \<open>The \<^verbatim>\<open>switch\<close> over \<^verbatim>\<open>task.type\<close> and the default that follows it.\<close>

definition byTaskType :: "task_val \<Rightarrow> string list \<Rightarrow> exec_context \<Rightarrow> suggestion" where
  "byTaskType v tried ctx =
     (if type_of v = Some ''INFORMATION_GATHERING'' then suggestAlternativeInfoGathering tried
      else if type_of v = Some ''SYNTHESIS'' \<and> \<not> List.member tried ''DIRECT_SYNTHESIS''
      then suggest ''DIRECT_SYNTHESIS'' 0.8 tried
      else if type_of v = Some ''TOOL_SELECTION'' then suggestAlternativeTool tried ctx
      else suggest ''ASK_CLARIFICATION'' 0.5 tried)"

text \<open>
  \<^verbatim>\<open>suggestAlternativeApproach\<close> returns \<^verbatim>\<open>null\<close> for an unknown task, a suggestion
  otherwise, or throws what the checks of the error patterns throw.
\<close>

definition suggestAlternativeApproach :: "string \<Rightarrow> exec_context \<Rightarrow> rsm
                                           \<Rightarrow> error + suggestion option" where
  "suggestAlternativeApproach taskId ctx s =
     (case map_of (tasks s) taskId of
        None \<Rightarrow> Inr None
      | Some v \<Rightarrow>
          if \<not> truthy v then Inr None
          else
            let fails = failedApproaches s taskId;
                tried = map fa_approach fails;
                errs = map (\<lambda>a. orEmpty (fa_error a)) fails
            in if length fails = 0 then
                 Inr (Some \<lparr>approach = ''default'', confidence = 1.0, responseType = None,
                            previousApproaches = None\<rparr>)
               else if length tried \<ge> 3 then
                 Inr (Some \<lparr>approach = ''DIRECT_RESPONSE'', confidence = 0.6,
                            responseType = Some ''summary'', previousApproaches = Some tried\<rparr>)
               else
                 (case urlError errs of
                    Inl err \<Rightarrow> Inl err
                  | Inr url \<Rightarrow>
                      if url then Inr (Some (suggest ''SINGLE_URL_PROCESSING'' 0.8 tried))
                      else
                        (case parameterError errs of
                           Inl err \<Rightarrow> Inl err
                         | Inr param \<Rightarrow>
                             if param then Inr (Some (suggest ''WEB_SEARCH'' 0.7 tried))
                             else Inr (Some (byTaskType v tried ctx)))))"

section \<open>Sequences of manager operations\<close>

text \<open>
  The mutating operations of the manager as data, so that properties can quantify over
  every sequence of calls. Each call comes with the clock value \<^verbatim>\<open>Date.now()\<close> returns
  during it. \<open>apply_op\<close> returns the error the call threw, if any, and the manager as the
  call left it; a caller that catches the error goes on with that manager.
\<close>

datatype sm_op =
    InitializePlan "task list"
  | UpdateTaskState string task_state
  | RecordSuccess string step_result
  | RecordFailure string string js_value
  | CreateCheckpoint string
  | RestoreCheckpoint string

fun thrown :: "(error + 'a) \<times> rsm \<Rightarrow> error option \<times> rsm" where
  "thrown (Inl e, s) = (Some e, s)"
| "thrown (Inr v, s) = (None, s)"

fun apply_op :: "sm_op \<Rightarrow> nat \<Rightarrow> rsm \<Rightarrow> error option \<times> rsm" where
  "apply_op (InitializePlan stps) now s = thrown (initializePlan stps now s)"
| "apply_op (UpdateTaskState i st) now s = (None, snd (updateTaskState i st now s))"
| "apply_op (RecordSuccess i r) now s = thrown (recordSuccess i r now s)"
| "apply_op (RecordFailure i a e) now s = thrown (recordFailure i a e now s)"
| "apply_op (CreateCheckpoint nm) now s = thrown (createCheckpoint nm now s)"
| "apply_op (RestoreCheckpoint nm) now s = (None, snd (restoreCheckpoint nm s))"

fun run_ops :: "(sm_op \<times> nat) list \<Rightarrow> rsm \<Rightarrow> rsm" where
  "run_ops [] s = s"
| "run_ops (x # xs) s = run_ops xs (snd (apply_op (fst x) (snd x) s))"

text \<open>
  The creation log of a run: for every call that reaches \<^verbatim>\<open>createCheckpoint\<close> and returns,
  the checkpoint found at the end of the buffer right after the call, in call order.
\<close>

fun makes_checkpoint :: "sm_op \<Rightarrow> bool" where
  "makes_checkpoint (UpdateTaskState i st) = False"
| "makes_checkpoint (RestoreCheckpoint nm) = False"
| "makes_checkpoint x = True"

definition newest :: "rsm \<Rightarrow> checkpoint list" where
  "newest s = (if checkpoints s = [] then [] else [last (checkpoints s)])"

fun created :: "(sm_op \<times> nat) list \<Rightarrow> rsm \<Rightarrow> checkpoint list" where
  "created [] s = []"
| "created (x # xs) s =
     (let r = apply_op (fst x) (snd x) s
      in (if makes_checkpoint (fst x) \<and> fst r = None then newest (snd r) else [])
         @ created xs (snd r))"

definition last10 :: "'a list \<Rightarrow> 'a list" where
  "last10 xs = drop (length xs - 10) xs"

text \<open>
  The failure history a checkpoint shows for a task: its \<open>approachesSnapshot\<close> entry, read
  through the array store. \<open>ref_ok\<close> says that the live reference of a task, if it has
  one, is an allocated array.
\<close>

definition historyAt :: "failure list list \<Rightarrow> checkpoint \<Rightarrow> string \<Rightarrow> failure list" where
  "historyAt st cp taskId =
     (case map_of (approachesSnapshot cp) taskId of None \<Rightarrow> [] | Some a \<Rightarrow> deref st a)"

definition ref_ok :: "rsm \<Rightarrow> string \<Rightarrow> bool" where
  "ref_ok s taskId =
     (case map_of (approaches s) taskId of None \<Rightarrow> True | Some a \<Rightarrow> a < length (arrays s))"

text \<open>
  The array store is well formed when every reference held by the live \<open>approaches\<close> map
  or by a checkpoint's snapshot of it is an allocated array.
\<close>

definition refs_below :: "nat \<Rightarrow> (string \<times> nat) list \<Rightarrow> bool" where
  "refs_below n m = list_all (\<lambda>ka. snd ka < n) m"

definition store_ok :: "rsm \<Rightarrow> bool" where
  "store_ok s =
     (refs_below (length (arrays s)) (approaches s)
      \<and> list_all (\<lambda>cp. refs_below (length (arrays s)) (approachesSnapshot cp)) (checkpoints s))"

section \<open>Dependency resolver\<close>

text \<open>
  \<^verbatim>\<open>logicalOrder[task.type] || []\<close>: the predecessor types a task type requires.
\<close>

definition logicalOrder :: "string \<Rightarrow> string list" where
  "logicalOrder ty =
     (case map_of [(''MEMORY_CHECK'', []),
                   (''INTENT_CLASSIFICATION'', []),
                   (''TOOL_SELECTION'', [''INTENT_CLASSIFICATION'', ''MEMORY_CHECK'']),
                   (''INFORMATION_GATHERING'', [''TOOL_SELECTION'']),
                   (''SYNTHESIS'', [''INFORMATION_GATHERING'']),
                   (''VERIFICATION'', [''SYNTHESIS''])] ty of
        None \<Rightarrow> []
      | Some ds \<Rightarrow> ds)"

text \<open>\<^verbatim>\<open>new Map(tasks.map(task => [task.id, task]))\<close>: a later task replaces an earlier
  one with the same identifier.\<close>

definition tasksById :: "task list \<Rightarrow> (string \<times> task) list" where
  "tasksById ts = fold (\<lambda>t m. AList.update (task_id t) t m) ts []"

definition tasksByType :: "task list \<Rightarrow> string \<Rightarrow> task list" where
  "tasksByType ts ty = filter (\<lambda>t. task_type t = ty) ts"

text \<open>
  What one required type adds to a task's dependencies: nothing when the plan has no task
  of the type or the task already depends on one; else the identifier of the first task of
  the type in the stable order by ascending priority.
\<close>

definition injected :: "task list \<Rightarrow> task \<Rightarrow> string \<Rightarrow> string list" where
  "injected ts t depType =
     (if tasksByType ts depType = [] then []
      else if list_ex (\<lambda>depId. case map_of (tasksById ts) depId of
                                 None \<Rightarrow> False
                               | Some d \<Rightarrow> task_type d = depType) (dependencies t)
      then []
      else (case sort_key priority (tasksByType ts depType) of
              [] \<Rightarrow> []
            | h # rest \<Rightarrow> [task_id h]))"

definition enforceLogicalDependencies :: "task list \<Rightarrow> task list" where
  "enforceLogicalDependencies ts =
     map (\<lambda>t. t\<lparr>dependencies :=
                  dependencies t @ concat (map (injected ts t) (logicalOrder (task_type t)))\<rparr>) ts"

text \<open>\<^verbatim>\<open>graph.get(taskId) || []\<close>.\<close>

definition dependenciesOf :: "(string \<times> string list) list \<Rightarrow> string \<Rightarrow> string list" where
  "dependenciesOf graph taskId = (case map_of graph taskId of None \<Rightarrow> [] | Some ds \<Rightarrow> ds)"

text \<open>
  The recursive \<^verbatim>\<open>visit\<close> of \<^verbatim>\<open>sortTasksByDependencies\<close>. The state is the set
  \<^verbatim>\<open>visited\<close> and the array \<^verbatim>\<open>result\<close>. The set \<^verbatim>\<open>temp\<close> holds the identifiers on the
  current recursion path: a call adds its identifier after the two early returns and
  deletes it before it returns, so \<^verbatim>\<open>temp\<close> is the same after a call as before it and is
  passed down as an argument. \<open>visitAll\<close> is the loop over the dependencies.
\<close>

function visit :: "(string \<times> string list) list \<Rightarrow> (string \<times> nat) list \<Rightarrow> string set \<Rightarrow> string
                     \<Rightarrow> string set \<times> string list \<Rightarrow> string set \<times> string list"
  and visitAll :: "(string \<times> string list) list \<Rightarrow> (string \<times> nat) list \<Rightarrow> string set
                     \<Rightarrow> string list \<Rightarrow> string set \<times> string list \<Rightarrow> string set \<times> string list" where
  "visit graph taskMap temp taskId st =
     (if taskId \<in> temp then st
      else if taskId \<in> fst st then st
      else
        let st' = visitAll graph taskMap (insert taskId temp) (dependenciesOf graph taskId) st
        in (insert taskId (fst st'), snd st' @ [taskId]))"
| "visitAll graph taskMap temp [] st = st"
| "visitAll graph taskMap temp (depId # rest) st =
     visitAll graph taskMap temp rest
       (if map_of taskMap depId \<noteq> None then visit graph taskMap temp depId st else st)"
  by pat_completeness auto
termination
proof (relation "measures
    [\<lambda>x. case x of
        Inl (graph, taskMap, temp, taskId, st) \<Rightarrow>
          (if taskId \<in> temp then 0 else Suc (card (fst ` set taskMap - insert taskId temp)))
      | Inr (graph, taskMap, temp, ds, st) \<Rightarrow> Suc (card (fst ` set taskMap - temp)),
     \<lambda>x. case x of Inl v \<Rightarrow> Suc 0 | Inr v \<Rightarrow> 0,
     \<lambda>x. case x of Inl v \<Rightarrow> 0 | Inr (graph, taskMap, temp, ds, st) \<Rightarrow> length ds]", goal_cases)
  case 1
  then show ?case by simp
next
  case (2 graph taskMap temp taskId st)
  then show ?case by simp
next
  case (3 graph taskMap temp depId rest st)
  have fin: "finite (fst ` set taskMap - temp)" by simp
  have "depId \<in> fst ` set taskMap" using 3 by (auto simp add: map_of_eq_None_iff)
  then have "depId \<notin> temp \<Longrightarrow>
      card (fst ` set taskMap - insert depId temp) < card (fst ` set taskMap - temp)"
    by (intro psubset_card_mono[OF fin]) auto
  then show ?case by auto
next
  case (4 graph taskMap temp depId rest st)
  then show ?case by simp
qed

text \<open>
  \<^verbatim>\<open>sortTasksByDependencies\<close>: \<^verbatim>\<open>taskMap\<close> maps an identifier to the index of the last
  task that bears it, \<^verbatim>\<open>graph\<close> to that task's dependencies. Every task not yet visited
  is visited in input order; the result array is reversed and mapped back to tasks.
\<close>

definition indexMap :: "task list \<Rightarrow> (string \<times> nat) list" where
  "indexMap ts = fold (\<lambda>it m. AList.update (task_id (snd it)) (fst it) m) (enumerate 0 ts) []"

definition graphOf :: "task list \<Rightarrow> (string \<times> string list) list" where
  "graphOf ts = fold (\<lambda>t m. AList.update (task_id t) (dependencies t) m) ts []"

definition visitOrder :: "task list \<Rightarrow> string list" where
  "visitOrder ts =
     snd (fold (\<lambda>t st. if task_id t \<notin> fst st
                        then visit (graphOf ts) (indexMap ts) {} (task_id t) st else st)
            ts ({}, []))"

definition sortTasksByDependencies :: "task list \<Rightarrow> task list" where
  "sortTasksByDependencies ts =
     concat (map (\<lambda>i. case map_of (indexMap ts) i of
                         None \<Rightarrow> []
                       | Some k \<Rightarrow> if k < length ts then [ts ! k] else [])
               (rev (visitOrder ts)))"

section \<open>Plan builder\<close>

definition getDefaultTasks :: "task list" where
  "getDefaultTasks =
     [\<lparr>task_id = ''task-1'', task_type = ''MEMORY_CHECK'', dependencies = [],
       priority = 1, optional = False\<rparr>,
      \<lparr>task_id = ''task-2'', task_type = ''INTENT_CLASSIFICATION'', dependencies = [],
       priority = 1, optional = False\<rparr>,
      \<lparr>task_id = ''task-3'', task_type = ''TOOL_SELECTION'', dependencies = [''task-2''],
       priority = 2, optional = False\<rparr>,
      \<lparr>task_id = ''task-4'', task_type = ''INFORMATION_GATHERING'', dependencies = [''task-3''],
       priority = 3, optional = False\<rparr>,
      \<lparr>task_id = ''task-5'', task_type = ''SYNTHESIS'', dependencies = [''task-4''],
       priority = 4, optional = False\<rparr>]"

text \<open>
  \<^verbatim>\<open>decomposeQuery\<close>. Its argument is what the decomposer produced after validation:
  the task list, or \<open>None\<close> when no JSON array was found or anything threw, in which case
  the default tasks are returned as they are.
\<close>

definition decomposeQuery :: "task list option \<Rightarrow> task list" where
  "decomposeQuery decomposed =
     (case decomposed of
        None \<Rightarrow> getDefaultTasks
      | Some validatedTasks \<Rightarrow>
          sortTasksByDependencies (enforceLogicalDependencies validatedTasks))"

definition typeOrder :: "string list" where
  "typeOrder = [''MEMORY_CHECK'', ''INTENT_CLASSIFICATION'', ''TOOL_SELECTION'',
                ''INFORMATION_GATHERING'', ''SYNTHESIS'', ''VERIFICATION'']"

text \<open>\<^verbatim>\<open>Array.prototype.indexOf\<close>, with -1 for an absent element.\<close>

fun indexOf :: "string list \<Rightarrow> string \<Rightarrow> int" where
  "indexOf [] x = -1"
| "indexOf (y # ys) x = (if y = x then 0 else if indexOf ys x < 0 then -1 else indexOf ys x + 1)"

definition typeRank :: "task \<Rightarrow> int" where
  "typeRank t = (if indexOf typeOrder (task_type t) \<ge> 0 then indexOf typeOrder (task_type t)
                 else int (length typeOrder))"

text \<open>
  The canonical re-sort of \<^verbatim>\<open>planQueryExecution\<close>: \<^verbatim>\<open>Array.prototype.sort\<close> is stable,
  as is \<open>sort_key\<close>.
\<close>

definition canonicalOrder :: "task list \<Rightarrow> task list" where
  "canonicalOrder stps = sort_key typeRank stps"

definition memoryTask :: task where
  "memoryTask = \<lparr>task_id = ''task-memory'', task_type = ''MEMORY_CHECK'', dependencies = [],
                  priority = 0, optional = False\<rparr>"

definition verificationTask :: task where
  "verificationTask = \<lparr>task_id = ''task-verification'', task_type = ''VERIFICATION'',
                        dependencies = [], priority = int (length typeOrder), optional = False\<rparr>"

definition withBookends :: "task list \<Rightarrow> task list" where
  "withBookends stps =
     (let existingTypes = map task_type stps;
          s1 = (if \<not> List.member existingTypes ''MEMORY_CHECK'' then memoryTask # stps else stps)
      in if \<not> List.member existingTypes ''VERIFICATION'' then s1 @ [verificationTask] else s1)"

text \<open>One entry of \<^verbatim>\<open>plan.results\<close>.\<close>

record result_entry =
  step :: task
  result :: step_result
  alternative :: "string option"

text \<open>
  The plan. An absent flag reads as falsy and is \<open>False\<close>; \<^verbatim>\<open>plan.error\<close> is
  \<open>plan_error\<close> and \<^verbatim>\<open>plan.results\<close> is \<open>plan_results\<close>. \<^verbatim>\<open>plan.startTime\<close> is never
  read and is left out.
\<close>

record plan =
  query :: string
  steps :: "task list"
  currentStepIndex :: nat
  plan_results :: "result_entry list"
  stateManager :: rsm
  completed :: bool
  lastStepSuccessful :: bool
  skippedStep :: bool
  usedAlternative :: bool
  plan_error :: "string option"

text \<open>
  \<^verbatim>\<open>planQueryExecution\<close>, the \<^verbatim>\<open>try\<close> block. No statement of it throws on the values
  of this model (a fresh manager holds no \<^verbatim>\<open>undefined\<close>), so the \<^verbatim>\<open>catch\<close> block with
  \<^verbatim>\<open>getDefaultSteps\<close> is not reached.
\<close>

definition planQueryExecution :: "string \<Rightarrow> task list option \<Rightarrow> nat \<Rightarrow> plan" where
  "planQueryExecution userQuery decomposed now =
     (let stps = withBookends (canonicalOrder (decomposeQuery decomposed))
      in \<lparr>query = userQuery, steps = stps, currentStepIndex = 0, plan_results = [],
          stateManager = snd (initializePlan stps now constructor),
          completed = False, lastStepSuccessful = False, skippedStep = False,
          usedAlternative = False, plan_error = None\<rparr>)"

section \<open>Step executor\<close>

text \<open>
  The collaborators are the functions that call a language model or a tool:
  \<^verbatim>\<open>executeMemoryCheck\<close>, \<^verbatim>\<open>executeIntentClassification\<close>, \<^verbatim>\<open>executeToolSelection\<close>,
  \<^verbatim>\<open>executeInformationGathering\<close>, \<^verbatim>\<open>executeSynthesis\<close>, \<^verbatim>\<open>executeToolWithName\<close>,
  \<^verbatim>\<open>executeSingleUrlProcessing\<close> and \<^verbatim>\<open>executeDirectSynthesis\<close>. What a collaborator
  does during one invocation of \<^verbatim>\<open>executeNextStep\<close> is given by an environment: it
  returns a result object or throws an \<^verbatim>\<open>Error\<close>, which is represented by its message. One
  invocation calls at most one collaborator of the first five and at most one of the last
  three.
\<close>

datatype collaborator =
    MemoryCheck
  | IntentClassification
  | ToolSelection
  | InformationGathering
  | Synthesis
  | ToolWithName string
  | SingleUrlProcessing
  | DirectSynthesis

datatype outcome = Returns step_result | Throws string

type_synonym env = "collaborator \<Rightarrow> outcome"

definition failed_result :: "string \<Rightarrow> step_result" where
  "failed_result msg = \<lparr>success = False, response = None, res_error = Some msg\<rparr>"

text \<open>\<^verbatim>\<open>executeVerification\<close> calls no collaborator: it surfaces the first synthesis result.\<close>

definition executeVerification :: "result_entry list \<Rightarrow> step_result" where
  "executeVerification rs =
     (case find (\<lambda>r. task_type (step r) = ''SYNTHESIS'') rs of
        None \<Rightarrow> failed_result ''No synthesis result available for verification''
      | Some synth \<Rightarrow>
          (case response (result synth) of
             None \<Rightarrow> failed_result ''No synthesis result available for verification''
           | Some txt \<Rightarrow>
               if txt \<noteq> [] then \<lparr>success = True, response = Some txt, res_error = None\<rparr>
               else failed_result ''No synthesis result available for verification''))"

text \<open>
  The \<^verbatim>\<open>switch\<close> over the step type. \<^verbatim>\<open>prioritizeTools\<close> only computes a list that
  \<^verbatim>\<open>executeToolSelection\<close> ignores, and does not throw on a context whose \<^verbatim>\<open>userMsg\<close>
  is a string.
\<close>

definition dispatch :: "env \<Rightarrow> task \<Rightarrow> result_entry list \<Rightarrow> outcome" where
  "dispatch e currentStep rs =
     (if task_type currentStep = ''MEMORY_CHECK'' then e MemoryCheck
      else if task_type currentStep = ''INTENT_CLASSIFICATION'' then e IntentClassification
      else if task_type currentStep = ''TOOL_SELECTION'' then e ToolSelection
      else if task_type currentStep = ''INFORMATION_GATHERING'' then e InformationGathering
      else if task_type currentStep = ''SYNTHESIS'' then e Synthesis
      else if task_type currentStep = ''VERIFICATION'' then Returns (executeVerification rs)
      else Returns (failed_result (''Unknown step type: '' @ task_type currentStep)))"

text \<open>The \<^verbatim>\<open>switch\<close> over the alternative approach.\<close>

definition retry :: "env \<Rightarrow> string \<Rightarrow> outcome" where
  "retry e appr =
     (if appr = ''WEB_SEARCH'' \<or> appr = ''READ_URL'' \<or> appr = ''REASONING_TOOL''
      then e (ToolWithName appr)
      else if appr = ''SINGLE_URL_PROCESSING'' then e SingleUrlProcessing
      else if appr = ''DIRECT_SYNTHESIS'' then e DirectSynthesis
      else Returns (failed_result (''Unknown alternative approach: '' @ appr)))"

record validation =
  valid :: bool
  fixable :: bool
  missingStep :: string

definition hasSuccessful :: "string \<Rightarrow> result_entry list \<Rightarrow> bool" where
  "hasSuccessful ty rs = (filter (\<lambda>r. task_type (step r) = ty \<and> success (result r)) rs \<noteq> [])"

definition validateStepInputs :: "task \<Rightarrow> plan \<Rightarrow> validation" where
  "validateStepInputs stp p =
     (if task_type stp = ''SYNTHESIS'' \<and> \<not> hasSuccessful ''INFORMATION_GATHERING'' (plan_results p)
      then \<lparr>valid = False, fixable = True, missingStep = ''INFORMATION_GATHERING''\<rparr>
      else if task_type stp = ''VERIFICATION'' \<and> \<not> hasSuccessful ''SYNTHESIS'' (plan_results p)
      then \<lparr>valid = False, fixable = True, missingStep = ''SYNTHESIS''\<rparr>
      else if task_type stp = ''INFORMATION_GATHERING''
              \<and> \<not> hasSuccessful ''TOOL_SELECTION'' (plan_results p)
      then \<lparr>valid = False, fixable = True, missingStep = ''TOOL_SELECTION''\<rparr>
      else \<lparr>valid = True, fixable = False, missingStep = []\<rparr>)"

definition createFixingStep :: "task \<Rightarrow> validation \<Rightarrow> task" where
  "createFixingStep originalStep v =
     \<lparr>task_id = ''fix-'' @ task_id originalStep, task_type = missingStep v,
      dependencies = dependencies originalStep, priority = 0, optional = False\<rparr>"

text \<open>\<^verbatim>\<open>plan.steps.splice(plan.currentStepIndex, 0, fixStep)\<close>.\<close>

definition splice :: "nat \<Rightarrow> task \<Rightarrow> task list \<Rightarrow> task list" where
  "splice i x xs = take i xs @ x # drop i xs"

text \<open>
  \<^verbatim>\<open>logTaskExecution\<close> only logs, but it calls \<^verbatim>\<open>getTaskStatus\<close> when the task is
  known, and so throws what that throws.
\<close>

definition logTaskExecution :: "plan \<Rightarrow> string \<Rightarrow> error option" where
  "logTaskExecution p taskId =
     (case map_of (tasks (stateManager p)) taskId of
        None \<Rightarrow> None
      | Some v \<Rightarrow>
          if \<not> truthy v then None
          else (case getTaskStatus (stateManager p) of Inl e \<Rightarrow> Some e | Inr st \<Rightarrow> None))"

definition message :: "error \<Rightarrow> string" where
  "message e = ''Cannot read properties of undefined''"

text \<open>The plan returned when a step or its alternative produced a result.\<close>

definition succeeded :: "plan \<Rightarrow> task \<Rightarrow> step_result \<Rightarrow> string option \<Rightarrow> rsm \<Rightarrow> plan" where
  "succeeded p currentStep r alt sm =
     p\<lparr>stateManager := sm,
       plan_results := plan_results p @ [\<lparr>step = currentStep, result = r, alternative = alt\<rparr>],
       currentStepIndex := currentStepIndex p + 1,
       completed := (currentStepIndex p + 1 \<ge> length (steps p)),
       lastStepSuccessful := True,
       usedAlternative := (if alt = None then usedAlternative p else True)\<rparr>"

text \<open>The end of the \<^verbatim>\<open>catch\<close> block: skip an optional step, else record the error.\<close>

definition giveUp :: "plan \<Rightarrow> task \<Rightarrow> string \<Rightarrow> string \<Rightarrow> nat \<Rightarrow> rsm \<Rightarrow> plan" where
  "giveUp p currentStep taskId msg now sm =
     (if optional currentStep
      then p\<lparr>stateManager := snd (updateTaskState taskId SKIPPED now sm),
             currentStepIndex := currentStepIndex p + 1,
             completed := (currentStepIndex p + 1 \<ge> length (steps p)),
             lastStepSuccessful := False,
             skippedStep := True\<rparr>
      else p\<lparr>stateManager := sm,
             plan_error := Some msg,
             currentStepIndex := currentStepIndex p + 1,
             completed := (currentStepIndex p + 1 \<ge> length (steps p)),
             lastStepSuccessful := False\<rparr>)"

text \<open>
  The inner \<^verbatim>\<open>catch (retryError)\<close>: record the failure of the alternative, then fall
  through to the end of the outer \<^verbatim>\<open>catch\<close> block. An error thrown here leaves
  \<^verbatim>\<open>executeNextStep\<close>.
\<close>

definition retryFailed :: "plan \<Rightarrow> task \<Rightarrow> string \<Rightarrow> string \<Rightarrow> string \<Rightarrow> string \<Rightarrow> nat \<Rightarrow> rsm
                            \<Rightarrow> error + plan" where
  "retryFailed p currentStep taskId msg appr retryMsg now sm =
     (let rf = recordFailure taskId appr (ErrorObject retryMsg) now sm
      in (case fst rf of
            Inl e \<Rightarrow> Inl e
          | Inr b \<Rightarrow> Inr (giveUp p currentStep taskId msg now (snd rf))))"

text \<open>
  The outer \<^verbatim>\<open>catch (error)\<close> block, entered with the message of the error and the
  manager as the \<^verbatim>\<open>try\<close> block left it. An error thrown by the advisor leaves
  \<^verbatim>\<open>executeNextStep\<close>.
\<close>

definition handleError :: "env \<Rightarrow> exec_context \<Rightarrow> nat \<Rightarrow> plan \<Rightarrow> task \<Rightarrow> string \<Rightarrow> string \<Rightarrow> rsm
                            \<Rightarrow> error + plan" where
  "handleError e ctx now p currentStep taskId msg sm =
     (let rf = recordFailure taskId (task_type currentStep) (ErrorObject msg) now sm
      in (case fst rf of
            Inl err \<Rightarrow> Inl err
          | Inr b \<Rightarrow>
              (case suggestAlternativeApproach taskId ctx (snd rf) of
                 Inl err \<Rightarrow> Inl err
               | Inr None \<Rightarrow> Inr (giveUp p currentStep taskId msg now (snd rf))
               | Inr (Some alt) \<Rightarrow>
                   if approach alt = ''ASK_CLARIFICATION''
                   then Inr (giveUp p currentStep taskId msg now (snd rf))
                   else
                     (case retry e (approach alt) of
                        Throws retryMsg \<Rightarrow>
                          retryFailed p currentStep taskId msg (approach alt) retryMsg now (snd rf)
                      | Returns retryResult \<Rightarrow>
                          (let rs = recordSuccess taskId retryResult now (snd rf)
                           in (case fst rs of
                                 Inl err \<Rightarrow>
                                   retryFailed p currentStep taskId msg (approach alt)
                                     (message err) now (snd rs)
                               | Inr b \<Rightarrow>
                                   Inr (succeeded p currentStep retryResult
                                          (Some (approach alt)) (snd rs))))))))"

text \<open>The \<^verbatim>\<open>try\<close> block: mark the task in progress, dispatch, record the success.\<close>

definition attempt :: "env \<Rightarrow> exec_context \<Rightarrow> nat \<Rightarrow> plan \<Rightarrow> task \<Rightarrow> string \<Rightarrow> error + plan" where
  "attempt e ctx now p currentStep taskId =
     (let sm1 = snd (updateTaskState taskId IN_PROGRESS now (stateManager p))
      in (case dispatch e currentStep (plan_results p) of
            Throws msg \<Rightarrow> handleError e ctx now p currentStep taskId msg sm1
          | Returns stepResult \<Rightarrow>
              (let rs = recordSuccess taskId stepResult now sm1
               in (case fst rs of
                     Inl err \<Rightarrow> handleError e ctx now p currentStep taskId (message err) (snd rs)
                   | Inr b \<Rightarrow> Inr (succeeded p currentStep stepResult None (snd rs))))))"

text \<open>The plan after a fixing step was spliced in and the manager re-initialised.\<close>

definition insertFix :: "plan \<Rightarrow> task \<Rightarrow> nat \<Rightarrow> (error + unit) \<times> plan" where
  "insertFix p fixStep now =
     (let stps = splice (currentStepIndex p) fixStep (steps p);
          ini = initializePlan stps now (stateManager p)
      in (fst ini, p\<lparr>steps := stps, stateManager := snd ini\<rparr>))"

text \<open>The number of fixing steps that can precede a step of a given type.\<close>

definition fixDepth :: "string \<Rightarrow> nat" where
  "fixDepth ty =
     (if ty = ''VERIFICATION'' then 3 else if ty = ''SYNTHESIS'' then 2
      else if ty = ''INFORMATION_GATHERING'' then 1 else 0)"

lemma splice_nth: "i \<le> length xs \<Longrightarrow> splice i x xs ! i = x"
  by (simp add: splice_def nth_append)

lemma length_splice: "length (splice i x xs) = Suc (length xs)"
  by (simp add: splice_def)

lemma invalid_missing_depth:
  "\<not> valid (validateStepInputs stp p) \<Longrightarrow>
     fixDepth (missingStep (validateStepInputs stp p)) < fixDepth (task_type stp)"
  by (simp add: validateStepInputs_def fixDepth_def split: if_splits)

function executeNextStep :: "env \<Rightarrow> exec_context \<Rightarrow> nat \<Rightarrow> plan \<Rightarrow> error + plan" where
  "executeNextStep e ctx now p =
     (if currentStepIndex p \<ge> length (steps p) then Inr (p\<lparr>completed := True\<rparr>)
      else
        let currentStep = steps p ! currentStepIndex p;
            taskId = taskIdOf currentStep (currentStepIndex p)
        in (case logTaskExecution p taskId of
              Some err \<Rightarrow> Inl err
            | None \<Rightarrow>
                if \<not> valid (validateStepInputs currentStep p) then
                  (if fixable (validateStepInputs currentStep p) then
                     (case fst (insertFix p (createFixingStep currentStep
                                               (validateStepInputs currentStep p)) now) of
                        Inl err \<Rightarrow> Inl err
                      | Inr u \<Rightarrow>
                          executeNextStep e ctx now
                            (snd (insertFix p (createFixingStep currentStep
                                                 (validateStepInputs currentStep p)) now)))
                   else Inr (p\<lparr>stateManager :=
                                  snd (updateTaskState taskId SKIPPED now (stateManager p)),
                                currentStepIndex := currentStepIndex p + 1,
                                skippedStep := True,
                                lastStepSuccessful := False\<rparr>))
                else attempt e ctx now p currentStep taskId))"
  by pat_completeness auto
termination
proof (relation "measure (\<lambda>(e, ctx, now, p).
          if currentStepIndex p < length (steps p)
          then fixDepth (task_type (steps p ! currentStepIndex p)) else 0)", goal_cases)
  case 1
  then show ?case by simp
next
  case (2 e ctx now p currentStep taskId u)
  then show ?case
    using invalid_missing_depth[of "steps p ! currentStepIndex p" p]
    by (simp add: insertFix_def Let_def splice_nth length_splice createFixingStep_def)
qed

declare executeNextStep.simps [simp del]

text \<open>
  The caller's loop: one invocation per element of the list, each with its environment
  and clock value; a rejected invocation ends the run.
\<close>

fun runPlan :: "(env \<times> nat) list \<Rightarrow> exec_context \<Rightarrow> plan \<Rightarrow> error + plan" where
  "runPlan [] ctx p = Inr p"
| "runPlan (x # xs) ctx p =
     (case executeNextStep (fst x) ctx (snd x) p of
        Inl err \<Rightarrow> Inl err
      | Inr p' \<Rightarrow> runPlan xs ctx p')"

section \<open>Predicates used in the properties\<close>

text \<open>
  The task states as a checkpoint would record them, and managers whose \<^verbatim>\<open>tasks\<close> map
  holds task objects only (as it does unless \<^verbatim>\<open>restoreCheckpoint\<close> has run).
\<close>

definition statesOf :: "rsm \<Rightarrow> (string \<times> task_state option) list" where
  "statesOf s = map (\<lambda>kv. (fst kv, state_of (snd kv))) (tasks s)"

fun isObj :: "task_val \<Rightarrow> bool" where
  "isObj (Obj t) = True"
| "isObj (Prim v) = False"

definition objectsOnly :: "rsm \<Rightarrow> bool" where
  "objectsOnly s = list_all (\<lambda>kv. isObj (snd kv)) (tasks s)"

text \<open>
  The order the dependency resolver produces: injection and depth-first sort in
  \<^verbatim>\<open>decomposeQuery\<close>, then the canonical re-sort of \<^verbatim>\<open>planQueryExecution\<close>.
  \<open>dependenciesFirst\<close> says that no task of a list stands before a task it depends on.
\<close>

definition resolve :: "task list option \<Rightarrow> task list" where
  "resolve decomposed = canonicalOrder (decomposeQuery decomposed)"

fun dependenciesFirst :: "task list \<Rightarrow> bool" where
  "dependenciesFirst [] = True"
| "dependenciesFirst (t # rest) =
     (\<not> list_ex (\<lambda>u. List.member (dependencies t) (task_id u)) rest \<and> dependenciesFirst rest)"

text \<open>
  An environment in which each of the five collaborators that execute a plan step returns
  a result with a truthy \<^verbatim>\<open>success\<close>.
\<close>

definition succeeds :: "env \<Rightarrow> bool" where
  "succeeds e =
     list_all (\<lambda>c. case e c of Returns r \<Rightarrow> success r | Throws m \<Rightarrow> False)
       [MemoryCheck, IntentClassification, ToolSelection, InformationGathering, Synthesis]"


text \<open>The manager's state of a task in the plan a run returned.\<close>

definition taskState :: "error + plan \<Rightarrow> string \<Rightarrow> task_state option" where
  "taskState r taskId =
     (case r of
        Inl err \<Rightarrow> None
      | Inr p \<Rightarrow> (case map_of (tasks (stateManager p)) taskId of None \<Rightarrow> None | Some v \<Rightarrow> state_of v))"

section \<open>Concrete inputs\<close>

text \<open>Small plans, call sequences and environments on which the theorems below are run.\<close>

definition mkTask :: "string \<Rightarrow> string \<Rightarrow> string list \<Rightarrow> task" where
  "mkTask i ty deps = \<lparr>task_id = i, task_type = ty, dependencies = deps, priority = 1,
                        optional = False\<rparr>"

definition okResult :: step_result where
  "okResult = \<lparr>success = True, response = Some ''done'', res_error = None\<rparr>"

definition elevenCheckpoints :: "(sm_op \<times> nat) list" where
  "elevenCheckpoints =
     map (\<lambda>n. (CreateCheckpoint (''c'' @ decimal n), n)) [1, 2, 3, 4, 5, 6, 7, 8, 9, 10, 11]"

definition ctx0 :: exec_context where
  "ctx0 = \<lparr>userMsg = ''what is the weather''\<rparr>"

definition toolTask :: task where
  "toolTask = mkTask ''t3'' ''TOOL_SELECTION'' []"

definition threeFailures :: "(sm_op \<times> nat) list" where
  "threeFailures =
     [(InitializePlan [toolTask], 1),
      (RecordFailure ''t3'' ''TOOL_SELECTION'' (ErrorObject ''selector timed out''), 2),
      (RecordFailure ''t3'' ''READ_URL'' (ErrorObject ''fetch failed''), 3),
      (RecordFailure ''t3'' ''REASONING_TOOL'' (ErrorObject ''no answer''), 4)]"

definition registeredTool :: "(sm_op \<times> nat) list" where
  "registeredTool = [(InitializePlan [toolTask], 1)]"

definition infoTask :: task where
  "infoTask = mkTask ''t4'' ''INFORMATION_GATHERING'' [''t3'']"

definition twoInfoFailures :: "(sm_op \<times> nat) list" where
  "twoInfoFailures =
     [(InitializePlan [toolTask, infoTask], 1),
      (RecordFailure ''t4'' ''INFORMATION_GATHERING'' (ErrorObject ''request timed out''), 2),
      (RecordFailure ''t4'' ''WEB_SEARCH'' (ErrorObject ''no results''), 3)]"

definition oneInfoFailure :: "(sm_op \<times> nat) list" where
  "oneInfoFailure =
     [(InitializePlan [toolTask, infoTask], 1),
      (RecordFailure ''t4'' ''INFORMATION_GATHERING'' (ErrorObject ''request timed out''), 2)]"

definition emptyMessageFailure :: "(sm_op \<times> nat) list" where
  "emptyMessageFailure =
     [(InitializePlan [toolTask, infoTask], 1),
      (RecordFailure ''t4'' ''INFORMATION_GATHERING'' (ErrorObject []), 2)]"

definition repeatedFailure :: "(sm_op \<times> nat) list" where
  "repeatedFailure =
     [(InitializePlan [toolTask, infoTask], 1),
      (RecordFailure ''t4'' ''INFORMATION_GATHERING'' (ErrorObject ''request timed out''), 2),
      (RecordSuccess ''t3'' okResult, 3),
      (RecordFailure ''t4'' ''WEB_SEARCH'' (ErrorObject ''no results''), 4)]"

definition restoreThenCheckpoint :: "(sm_op \<times> nat) list" where
  "restoreThenCheckpoint =
     [(InitializePlan [toolTask], 1),
      (RestoreCheckpoint ''plan_initialized'', 2),
      (CreateCheckpoint ''again'', 3)]"

definition firstFailure :: "(sm_op \<times> nat) list" where
  "firstFailure =
     [(InitializePlan [toolTask], 1),
      (RecordFailure ''t3'' ''TOOL_SELECTION'' (ErrorObject ''selector timed out''), 2)]"

definition secondFailure :: "(sm_op \<times> nat) list" where
  "secondFailure = [(RecordFailure ''t3'' ''READ_URL'' (ErrorObject ''fetch failed''), 3)]"

definition memoryAfterSynthesis :: "task list" where
  "memoryAfterSynthesis = [mkTask ''a'' ''MEMORY_CHECK'' [''b''], mkTask ''b'' ''SYNTHESIS'' []]"

definition synthesisFirst :: "task list" where
  "synthesisFirst = [mkTask ''s'' ''SYNTHESIS'' [''g''], mkTask ''g'' ''INFORMATION_GATHERING'' []]"

definition allSucceed :: env where
  "allSucceed c = Returns okResult"

definition synthesisOnly :: plan where
  "synthesisOnly = planQueryExecution ''what is the weather'' (Some [mkTask ''t1'' ''SYNTHESIS'' []]) 0"


definition defaultPlan :: plan where
  "defaultPlan = planQueryExecution ''what is the weather'' None 0"

section \<open>Properties of the state manager\<close>

subsection \<open>What each operation leaves alone\<close>

lemma updateTaskState_frame [simp]:
  "results (snd (updateTaskState i st now s)) = results s"
  "approaches (snd (updateTaskState i st now s)) = approaches s"
  "checkpoints (snd (updateTaskState i st now s)) = checkpoints s"
  "arrays (snd (updateTaskState i st now s)) = arrays s"
  by (simp_all add: updateTaskState_def Let_def split: option.splits)

lemma createCheckpoint_frame [simp]:
  "tasks (snd (createCheckpoint nm now s)) = tasks s"
  "results (snd (createCheckpoint nm now s)) = results s"
  "approaches (snd (createCheckpoint nm now s)) = approaches s"
  "arrays (snd (createCheckpoint nm now s)) = arrays s"
  by (simp_all add: createCheckpoint_def Let_def)

lemma thrown_snd [simp]: "snd (thrown r) = snd r"
  by (cases r rule: thrown.cases) simp_all

lemma recordFailure_via:
  "recordFailure taskId appr err now s =
     (let c = createCheckpoint (''task_'' @ taskId @ ''_failed'') now
                (failurePushed taskId appr err now s)
      in (case fst c of Inl e \<Rightarrow> (Inl e, snd c) | Inr u \<Rightarrow> (Inr True, snd c)))"
  unfolding recordFailure_def failurePushed_def Let_def ..

lemma recordFailure_snd:
  "snd (recordFailure taskId appr err now s) =
     snd (createCheckpoint (''task_'' @ taskId @ ''_failed'') now
            (failurePushed taskId appr err now s))"
  by (simp add: recordFailure_via Let_def split: sum.splits)

lemma failurePushed_frame [simp]:
  "tasks (failurePushed taskId appr err now s) = tasks (snd (updateTaskState taskId FAILED now s))"
  "results (failurePushed taskId appr err now s) = results s"
  "checkpoints (failurePushed taskId appr err now s) = checkpoints s"
  by (simp_all add: failurePushed_def Let_def split: option.splits)

lemma recordSuccess_snd:
  "snd (recordSuccess taskId r now s) =
     snd (createCheckpoint (''task_'' @ taskId @ ''_completed'') now
            ((snd (updateTaskState taskId COMPLETED now s))
               \<lparr>results := AList.update taskId r (results s)\<rparr>))"
  by (simp add: recordSuccess_def Let_def split: sum.splits)

subsection \<open>The checkpoint buffer\<close>

lemma last10_append: "last10 (last10 xs @ ys) = last10 (xs @ ys)"
  by (cases "length xs \<le> 10") (simp_all add: last10_def add.commute)

lemma last10_id: "length xs \<le> 10 \<Longrightarrow> last10 xs = xs"
  by (simp add: last10_def)

lemma length_last10: "length (last10 xs) \<le> 10"
  by (simp add: last10_def)

lemma createCheckpoint_returns:
  assumes "\<not> has_undefined (tasks s)" "length (checkpoints s) \<le> 10"
  shows "fst (createCheckpoint nm now s) = Inr ()"
    and "checkpoints (snd (createCheckpoint nm now s)) = last10 (checkpoints s @ [snapshot nm now s])"
    and "newest (snd (createCheckpoint nm now s)) = [snapshot nm now s]"
proof -
  show "fst (createCheckpoint nm now s) = Inr ()"
    using assms by (simp add: createCheckpoint_def Let_def)
  have d: "length (checkpoints s @ [snapshot nm now s]) - 10
             = (if length (checkpoints s) = 10 then Suc 0 else 0)"
    using assms by auto
  show b: "checkpoints (snd (createCheckpoint nm now s)) = last10 (checkpoints s @ [snapshot nm now s])"
    unfolding last10_def d using assms
    by (cases "checkpoints s") (auto simp add: createCheckpoint_def Let_def drop_Suc)
  have "last10 (checkpoints s @ [snapshot nm now s]) \<noteq> []"
    unfolding last10_def d by auto
  moreover have "last (last10 (checkpoints s @ [snapshot nm now s])) = snapshot nm now s"
    unfolding last10_def d by (simp add: last_drop)
  ultimately show "newest (snd (createCheckpoint nm now s)) = [snapshot nm now s]"
    unfolding newest_def b by simp
qed

lemma createCheckpoint_throws:
  assumes "has_undefined (tasks s)"
  shows "createCheckpoint nm now s = (Inl TypeError, s)"
  using assms by (simp add: createCheckpoint_def)

lemma createCheckpoint_step:
  assumes "length (checkpoints s) \<le> 10"
  shows "checkpoints (snd (createCheckpoint nm now s)) =
           last10 (checkpoints s @ (if fst (thrown (createCheckpoint nm now s)) = None
                                    then newest (snd (createCheckpoint nm now s)) else []))"
proof (cases "has_undefined (tasks s)")
  case True
  then show ?thesis using assms by (simp add: createCheckpoint_throws last10_id)
next
  case False
  show ?thesis
    using createCheckpoint_returns[OF False assms, of nm now]
    by (cases "createCheckpoint nm now s") simp
qed

lemma apply_op_step:
  assumes "length (checkpoints s) \<le> 10"
  shows "checkpoints (snd (apply_op x now s)) =
           last10 (checkpoints s @ (if makes_checkpoint x \<and> fst (apply_op x now s) = None
                                    then newest (snd (apply_op x now s)) else []))"
proof (cases x)
  case (InitializePlan stps)
  then show ?thesis
    using createCheckpoint_step[of "s\<lparr>tasks := fold register (enumerate 0 stps) (tasks s)\<rparr>"
                                   "''plan_initialized''" now] assms
    by (simp add: initializePlan_def)
next
  case (UpdateTaskState i st)
  then show ?thesis using assms by (simp add: last10_id)
next
  case (RecordSuccess i r)
  let ?s2 = "(snd (updateTaskState i COMPLETED now s))
               \<lparr>results := AList.update i r (results (snd (updateTaskState i COMPLETED now s)))\<rparr>"
  have "length (checkpoints ?s2) \<le> 10" using assms by simp
  from createCheckpoint_step[OF this, of "''task_'' @ i @ ''_completed''" now]
  show ?thesis using RecordSuccess
    by (cases "createCheckpoint (''task_'' @ i @ ''_completed'') now ?s2";
        cases "fst (createCheckpoint (''task_'' @ i @ ''_completed'') now ?s2)")
       (simp_all add: recordSuccess_def Let_def)
next
  case (RecordFailure i a e)
  have "length (checkpoints (failurePushed i a e now s)) \<le> 10" using assms by simp
  from createCheckpoint_step[OF this, of "''task_'' @ i @ ''_failed''" now]
  show ?thesis using RecordFailure
    by (cases "createCheckpoint (''task_'' @ i @ ''_failed'') now (failurePushed i a e now s)";
        cases "fst (createCheckpoint (''task_'' @ i @ ''_failed'') now (failurePushed i a e now s))")
       (simp_all add: recordFailure_via Let_def)
next
  case (CreateCheckpoint nm)
  then show ?thesis using createCheckpoint_step[OF assms, of nm now] by simp
next
  case (RestoreCheckpoint nm)
  then show ?thesis using assms
    by (simp add: last10_id restoreCheckpoint_def split: option.splits)
qed

lemma run_ops_buffer:
  assumes "length (checkpoints s) \<le> 10"
  shows "checkpoints (run_ops ops s) = last10 (checkpoints s @ created ops s)"
  using assms
proof (induction ops arbitrary: s)
  case Nil
  then show ?case by (simp add: last10_id)
next
  case (Cons x xs)
  let ?r = "apply_op (fst x) (snd x) s"
  let ?new = "(if makes_checkpoint (fst x) \<and> fst ?r = None then newest (snd ?r) else [])"
  have st: "checkpoints (snd ?r) = last10 (checkpoints s @ ?new)"
    using apply_op_step[OF Cons.prems] by simp
  then have "length (checkpoints (snd ?r)) \<le> 10" by (simp add: length_last10)
  from Cons.IH[OF this]
  have "checkpoints (run_ops (x # xs) s)
          = last10 (last10 (checkpoints s @ ?new) @ created xs (snd ?r))"
    by (simp add: st)
  also have "\<dots> = last10 ((checkpoints s @ ?new) @ created xs (snd ?r))"
    by (rule last10_append)
  finally show ?case by (simp add: Let_def)
qed

text \<open>
  C4. Whatever sequence of operations is run on a fresh manager, the checkpoint buffer
  holds at most 10 checkpoints, and it holds exactly the last 10 checkpoints of the
  creation log, in creation order: once an 11th checkpoint is created, the oldest is gone.
\<close>

theorem checkpoint_buffer_bounded:
  "length (checkpoints (run_ops ops constructor)) \<le> 10
   \<and> checkpoints (run_ops ops constructor) =
       drop (length (created ops constructor) - 10) (created ops constructor)"
proof -
  have "length (checkpoints constructor) \<le> 10" by (simp add: constructor_def)
  from run_ops_buffer[OF this, of ops]
  have e: "checkpoints (run_ops ops constructor) = last10 (created ops constructor)"
    by (simp add: constructor_def)
  show ?thesis unfolding e by (simp add: last10_def)
qed

theorem checkpoint_buffer_bounded_witness:
  "map name (created elevenCheckpoints constructor) =
     [''c1'', ''c2'', ''c3'', ''c4'', ''c5'', ''c6'', ''c7'', ''c8'', ''c9'', ''c10'', ''c11'']
   \<and> map name (checkpoints (run_ops elevenCheckpoints constructor)) =
     [''c2'', ''c3'', ''c4'', ''c5'', ''c6'', ''c7'', ''c8'', ''c9'', ''c10'', ''c11'']"
proof -
  have c: "map name (created elevenCheckpoints constructor) =
     [''c1'', ''c2'', ''c3'', ''c4'', ''c5'', ''c6'', ''c7'', ''c8'', ''c9'', ''c10'', ''c11'']"
    by code_simp
  have "map name (checkpoints (run_ops elevenCheckpoints constructor)) =
          drop (length (map name (created elevenCheckpoints constructor)) - 10)
            (map name (created elevenCheckpoints constructor))"
    using checkpoint_buffer_bounded[of elevenCheckpoints] by (simp add: drop_map)
  then show ?thesis unfolding c by simp
qed

subsection \<open>The array store\<close>

text \<open>
  No operation of the manager leaves a dangling array reference, so in every state reached
  from a fresh manager the reference of every task is an allocated array.
\<close>

lemma store_ok_ref: "store_ok s \<Longrightarrow> ref_ok s taskId"
  by (auto simp add: store_ok_def refs_below_def ref_ok_def list_all_iff
           split: option.splits dest!: map_of_SomeD)

lemma refs_below_update:
  "refs_below n m \<Longrightarrow> a < n \<Longrightarrow> refs_below n (AList.update k a m)"
  by (induction m) (auto simp add: refs_below_def)

lemma refs_below_mono:
  "refs_below n m \<Longrightarrow> n \<le> n' \<Longrightarrow> refs_below n' m"
  by (auto simp add: refs_below_def list_all_iff)

lemma length_push: "length (push a f st) = length st"
  by (simp add: push_def)

lemma store_ok_updateTaskState:
  "store_ok s \<Longrightarrow> store_ok (snd (updateTaskState i st now s))"
  by (simp add: store_ok_def)

lemma store_ok_createCheckpoint:
  assumes "store_ok s"
  shows "store_ok (snd (createCheckpoint nm now s))"
proof -
  let ?P = "\<lambda>cp. refs_below (length (arrays s)) (approachesSnapshot cp)"
  have all: "list_all ?P (checkpoints s @ [snapshot nm now s])"
    using assms by (simp add: store_ok_def snapshot_def)
  then have "list_all ?P (tl (checkpoints s @ [snapshot nm now s]))"
    by (metis list.sel(2) list.set_sel(2) list_all_iff)
  with all show ?thesis
    using assms by (simp add: createCheckpoint_def Let_def store_ok_def)
qed

lemma store_ok_failurePushed:
  assumes "store_ok s"
  shows "store_ok (failurePushed i a m now s)"
proof -
  let ?s1 = "snd (updateTaskState i FAILED now s)"
  have s1: "store_ok ?s1" using assms by (rule store_ok_updateTaskState)
  show ?thesis
  proof (cases "map_of (approaches s) i")
    case None
    have "refs_below (Suc (length (arrays s))) (AList.update i (length (arrays s)) (approaches s))"
      using s1 by (intro refs_below_update) (auto simp add: store_ok_def intro: refs_below_mono)
    moreover have "list_all (\<lambda>cp. refs_below (Suc (length (arrays s))) (approachesSnapshot cp))
                     (checkpoints s)"
      using s1 by (auto simp add: store_ok_def list_all_iff intro: refs_below_mono)
    ultimately show ?thesis using None
      by (simp add: failurePushed_def Let_def store_ok_def length_push update_conv')
  next
    case (Some ad)
    then show ?thesis using s1
      by (simp add: failurePushed_def Let_def store_ok_def length_push)
  qed
qed

lemma store_ok_restoreCheckpoint:
  assumes "store_ok s"
  shows "store_ok (snd (restoreCheckpoint nm s))"
proof (cases "find (\<lambda>cp. name cp = nm) (checkpoints s)")
  case None
  then show ?thesis using assms by (simp add: restoreCheckpoint_def)
next
  case (Some cp)
  then have "cp \<in> set (checkpoints s)"
    by (auto simp add: find_Some_iff)
  then show ?thesis using assms Some
    by (auto simp add: restoreCheckpoint_def store_ok_def list_all_iff)
qed

lemma store_ok_apply_op:
  assumes "store_ok s"
  shows "store_ok (snd (apply_op x now s))"
proof (cases x)
  case (InitializePlan stps)
  have "store_ok (s\<lparr>tasks := fold register (enumerate 0 stps) (tasks s)\<rparr>)"
    using assms by (simp add: store_ok_def)
  then show ?thesis using InitializePlan
    by (simp add: initializePlan_def store_ok_createCheckpoint)
next
  case (UpdateTaskState i st)
  then show ?thesis using assms by (simp add: store_ok_updateTaskState)
next
  case (RecordSuccess i r)
  have "store_ok ((snd (updateTaskState i COMPLETED now s))\<lparr>results := AList.update i r (results s)\<rparr>)"
    using store_ok_updateTaskState[OF assms, of i COMPLETED now] by (simp add: store_ok_def)
  then show ?thesis using RecordSuccess
    by (simp add: recordSuccess_snd store_ok_createCheckpoint)
next
  case (RecordFailure i a e)
  then show ?thesis
    using store_ok_failurePushed[OF assms] by (simp add: recordFailure_snd store_ok_createCheckpoint)
next
  case (CreateCheckpoint nm)
  then show ?thesis using assms by (simp add: store_ok_createCheckpoint)
next
  case (RestoreCheckpoint nm)
  then show ?thesis using assms by (simp add: store_ok_restoreCheckpoint)
qed

lemma store_ok_run_ops: "store_ok s \<Longrightarrow> store_ok (run_ops ops s)"
  by (induction ops arbitrary: s) (simp_all add: store_ok_apply_op)

lemma reachable_ref_ok: "ref_ok (run_ops ops constructor) taskId"
proof -
  have "store_ok constructor" by (simp add: store_ok_def refs_below_def constructor_def)
  then show ?thesis by (intro store_ok_ref store_ok_run_ops)
qed

subsection \<open>Failure histories and the advisor\<close>

lemma failurePushed_history:
  assumes "ref_ok s taskId"
  shows "failedApproaches (failurePushed taskId appr err now s) taskId
         = failedApproaches s taskId @ [\<lparr>fa_approach = appr, fa_error = messageOr err, fa_timestamp = now\<rparr>]"
    and "ref_ok (failurePushed taskId appr err now s) taskId"
  using assms
  by (auto simp add: failurePushed_def Let_def failedApproaches_def ref_ok_def push_def deref_def
      update_conv' split: option.splits)

lemma failedApproaches_createCheckpoint [simp]:
  "failedApproaches (snd (createCheckpoint nm now s)) taskId = failedApproaches s taskId"
  by (simp add: failedApproaches_def split: option.splits)

lemma ref_ok_createCheckpoint [simp]:
  "ref_ok (snd (createCheckpoint nm now s)) taskId = ref_ok s taskId"
  by (simp add: ref_ok_def split: option.splits)

lemma recordFailure_history:
  assumes "ref_ok s taskId"
  shows "failedApproaches (snd (recordFailure taskId appr err now s)) taskId
         = failedApproaches s taskId @ [\<lparr>fa_approach = appr, fa_error = messageOr err, fa_timestamp = now\<rparr>]"
    and "ref_ok (snd (recordFailure taskId appr err now s)) taskId"
  using failurePushed_history[OF assms] by (simp_all add: recordFailure_snd)

lemma updateTaskState_truthy:
  assumes "map_of (tasks s) taskId = Some v" "truthy v"
  shows "\<exists>t. map_of (tasks (snd (updateTaskState taskId st now s))) taskId = Some (Obj t)"
  using assms by (simp add: updateTaskState_def Let_def update_conv')

lemma recordFailure_registered:
  assumes "map_of (tasks s) taskId = Some v" "truthy v"
  shows "\<exists>t. map_of (tasks (snd (recordFailure taskId appr err now s))) taskId = Some (Obj t)"
  using updateTaskState_truthy[OF assms, of FAILED now]
  by (simp add: recordFailure_snd)

lemma truthy_Obj: "truthy (Obj t)"
  by simp

lemma escalation:
  assumes "map_of (tasks s) taskId = Some v" "truthy v"
    and "3 \<le> length (failedApproaches s taskId)"
  shows "map_sum id (map_option (\<lambda>g. (approach g, confidence g))) (suggestAlternativeApproach taskId ctx s)
         = Inr (Some (''DIRECT_RESPONSE'', 0.6))"
  using assms by (auto simp add: suggestAlternativeApproach_def Let_def)

text \<open>
  C7. For a registered task whose failure history holds 3 or more distinct approach labels,
  \<^verbatim>\<open>suggestAlternativeApproach\<close> returns approach \<^verbatim>\<open>DIRECT_RESPONSE\<close> with confidence 0.6,
  whatever the recorded errors, the task type and the context are: the check comes
  before the error signatures and the per-type heuristics. In particular this is so after
  three calls of \<^verbatim>\<open>recordFailure\<close> for the task with distinct labels. (The code counts
  the entries of the history, so the labels need not even be distinct.) The condition
  \<open>ref_ok\<close> holds in every state reached from a fresh manager, by \<open>reachable_ref_ok\<close>.
\<close>

theorem direct_response_after_three_approaches:
  assumes "map_of (tasks s) taskId = Some v" and "truthy v"
  shows "(3 \<le> card (set (map fa_approach (failedApproaches s taskId))) \<longrightarrow>
            map_sum id (map_option (\<lambda>g. (approach g, confidence g))) (suggestAlternativeApproach taskId ctx s)
              = Inr (Some (''DIRECT_RESPONSE'', 0.6)))
       \<and> (ref_ok s taskId \<and> distinct [a1, a2, a3] \<longrightarrow>
            map_sum id (map_option (\<lambda>g. (approach g, confidence g)))
              (suggestAlternativeApproach taskId ctx
                 (snd (recordFailure taskId a3 e3 n3
                   (snd (recordFailure taskId a2 e2 n2
                     (snd (recordFailure taskId a1 e1 n1 s)))))))
              = Inr (Some (''DIRECT_RESPONSE'', 0.6)))"
proof (intro conjI impI)
  assume "3 \<le> card (set (map fa_approach (failedApproaches s taskId)))"
  also have "\<dots> \<le> length (map fa_approach (failedApproaches s taskId))" by (rule card_length)
  finally have "3 \<le> length (failedApproaches s taskId)" by simp
  then show "map_sum id (map_option (\<lambda>g. (approach g, confidence g))) (suggestAlternativeApproach taskId ctx s)
              = Inr (Some (''DIRECT_RESPONSE'', 0.6))"
    by (rule escalation[OF assms])
next
  assume a: "ref_ok s taskId \<and> distinct [a1, a2, a3]"
  let ?s1 = "snd (recordFailure taskId a1 e1 n1 s)"
  let ?s2 = "snd (recordFailure taskId a2 e2 n2 ?s1)"
  let ?s3 = "snd (recordFailure taskId a3 e3 n3 ?s2)"
  have r1: "ref_ok ?s1 taskId" using a by (simp add: recordFailure_history(2))
  have r2: "ref_ok ?s2 taskId" using r1 by (rule recordFailure_history(2))
  obtain t1 where t1: "map_of (tasks ?s1) taskId = Some (Obj t1)"
    using recordFailure_registered[OF assms] by blast
  obtain t2 where t2: "map_of (tasks ?s2) taskId = Some (Obj t2)"
    using recordFailure_registered[OF t1 truthy_Obj] by blast
  obtain t3 where t3: "map_of (tasks ?s3) taskId = Some (Obj t3)"
    using recordFailure_registered[OF t2 truthy_Obj] by blast
  have "3 \<le> length (failedApproaches ?s3 taskId)"
    using a r1 r2 by (simp add: recordFailure_history(1))
  then show "map_sum id (map_option (\<lambda>g. (approach g, confidence g))) (suggestAlternativeApproach taskId ctx ?s3)
              = Inr (Some (''DIRECT_RESPONSE'', 0.6))"
    using escalation[OF t3 truthy_Obj] by simp
qed

theorem direct_response_after_three_approaches_witness:
  "map_option type_of (map_of (tasks (run_ops threeFailures constructor)) ''t3'')
     = Some (Some ''TOOL_SELECTION'')
   \<and> map fa_approach (failedApproaches (run_ops threeFailures constructor) ''t3'')
     = [''TOOL_SELECTION'', ''READ_URL'', ''REASONING_TOOL'']
   \<and> map_sum id (map_option (\<lambda>g. (approach g, confidence g)))
        (suggestAlternativeApproach ''t3'' ctx0 (run_ops threeFailures constructor))
     = Inr (Some (''DIRECT_RESPONSE'', 0.6))
   \<and> ref_ok (run_ops registeredTool constructor) ''t3''
   \<and> distinct [''TOOL_SELECTION'', ''READ_URL'', ''REASONING_TOOL'']
   \<and> map_sum id (map_option (\<lambda>g. (approach g, confidence g)))
        (suggestAlternativeApproach ''t3'' ctx0
           (snd (recordFailure ''t3'' ''REASONING_TOOL'' (ErrorObject ''no answer'') 4
             (snd (recordFailure ''t3'' ''READ_URL'' (ErrorObject ''fetch failed'') 3
               (snd (recordFailure ''t3'' ''TOOL_SELECTION'' (ErrorObject ''selector timed out'') 2
                      (run_ops registeredTool constructor))))))))
     = Inr (Some (''DIRECT_RESPONSE'', 0.6))"
proof -
  let ?s = "run_ops threeFailures constructor"
  let ?r = "run_ops registeredTool constructor"
  have reg: "map_of (tasks ?s) ''t3'' = Some (the (map_of (tasks ?s) ''t3''))"
    by code_simp
  have tr: "truthy (the (map_of (tasks ?s) ''t3''))"
    by code_simp
  have ty: "map_option type_of (map_of (tasks ?s) ''t3'') = Some (Some ''TOOL_SELECTION'')"
    by code_simp
  have tried: "map fa_approach (failedApproaches ?s ''t3'')
                 = [''TOOL_SELECTION'', ''READ_URL'', ''REASONING_TOOL'']"
    by code_simp
  have three: "3 \<le> card (set (map fa_approach (failedApproaches ?s ''t3'')))"
    unfolding tried by simp
  have first: "map_sum id (map_option (\<lambda>g. (approach g, confidence g))) (suggestAlternativeApproach ''t3'' ctx0 ?s)
                 = Inr (Some (''DIRECT_RESPONSE'', 0.6))"
    using direct_response_after_three_approaches[OF reg tr, of ctx0] three by blast
  have reg0: "map_of (tasks ?r) ''t3'' = Some (the (map_of (tasks ?r) ''t3''))"
    by code_simp
  have tr0: "truthy (the (map_of (tasks ?r) ''t3''))"
    by code_simp
  have ok0: "ref_ok ?r ''t3''"
    by code_simp
  have d: "distinct [''TOOL_SELECTION'', ''READ_URL'', ''REASONING_TOOL'']"
    by simp
  have second: "map_sum id (map_option (\<lambda>g. (approach g, confidence g)))
        (suggestAlternativeApproach ''t3'' ctx0
           (snd (recordFailure ''t3'' ''REASONING_TOOL'' (ErrorObject ''no answer'') 4
             (snd (recordFailure ''t3'' ''READ_URL'' (ErrorObject ''fetch failed'') 3
               (snd (recordFailure ''t3'' ''TOOL_SELECTION'' (ErrorObject ''selector timed out'') 2 ?r)))))))
     = Inr (Some (''DIRECT_RESPONSE'', 0.6))"
    using direct_response_after_three_approaches[OF reg0 tr0,
            of ctx0 "''TOOL_SELECTION''" "''READ_URL''" "''REASONING_TOOL''"
               "ErrorObject ''no answer''" 4 "ErrorObject ''fetch failed''" 3
               "ErrorObject ''selector timed out''" 2] ok0 d
    by blast
  show ?thesis using ty tried first ok0 d second by blast
qed

lemma firstUntried_find:
  "map_option fst (firstUntried ps tried) = find (\<lambda>t. t \<notin> set tried) (map fst ps)"
  by (induction ps) (simp_all add: List.member_iff)

lemma firstUntried_confidence:
  "firstUntried ps tried = Some tc \<Longrightarrow> distinct (map fst ps) \<Longrightarrow> map_of ps (fst tc) = Some (snd tc)"
  by (induction ps) (auto split: if_splits)

lemma short_history_has_untried:
  assumes "length tried < 3"
  shows "firstUntried toolPriorities tried \<noteq> None"
proof
  assume "firstUntried toolPriorities tried = None"
  then have "find (\<lambda>t. t \<notin> set tried) (map fst toolPriorities) = None"
    using firstUntried_find[of toolPriorities tried] by simp
  then have sub: "{''WEB_SEARCH'', ''READ_URL'', ''MEMORY_CHECK''} \<subseteq> set tried"
    unfolding find_None_iff by (auto simp add: toolPriorities_def)
  have "card {''WEB_SEARCH'', ''READ_URL'', ''MEMORY_CHECK''} = 3" by simp
  then have "3 \<le> card (set tried)" using card_mono[OF _ sub] by simp
  also have "\<dots> \<le> length tried" by (rule card_length)
  finally show False using assms by simp
qed

lemma infoGathering_exhausted:
  assumes "set [''WEB_SEARCH'', ''READ_URL'', ''MEMORY_CHECK'', ''REASONING_TOOL''] \<subseteq> set tried"
  shows "suggestAlternativeInfoGathering tried =
           (if ''DIRECT_SYNTHESIS'' \<notin> set tried
            then \<lparr>approach = ''DIRECT_SYNTHESIS'', confidence = 0.7, responseType = None,
                  previousApproaches = Some tried\<rparr>
            else \<lparr>approach = ''ASK_CLARIFICATION'', confidence = 0.5, responseType = None,
                  previousApproaches = Some tried\<rparr>)"
  using assms
  by (simp add: suggestAlternativeInfoGathering_def toolPriorities_def suggest_def List.member_iff)

lemma orEmpty_id: "orEmpty e = e"
  by (cases e) simp_all

lemma someIncludes_strings:
  "someIncludes ps (map Str ms) = Inr (\<exists>m\<in>set ms. \<exists>p\<in>set ps. str_includes m p)"
  by (induction ms) (simp_all add: list_ex_iff)

lemma someIncludes_non_string:
  assumes "\<forall>t. v \<noteq> Str t"
  shows "someIncludes ps (map Str ms @ v # rest) =
           (if \<exists>m\<in>set ms. \<exists>p\<in>set ps. str_includes m p then Inr True else Inl TypeError)"
  using assms by (induction ms) (cases v; simp add: list_ex_iff)+

text \<open>
  When a history of one or two entries holds an error that is not a string, such as an
  \<^verbatim>\<open>Error\<close> whose message is empty, and no earlier entry is a URL error, the check of the
  error patterns throws: the advisor returns no suggestion.
\<close>

lemma non_string_error_throws:
  assumes "map_of (tasks s) taskId = Some v" and "truthy v"
    and "map fa_error (failedApproaches s taskId) = map Str ms @ e # rest"
    and "\<forall>t. e \<noteq> Str t"
    and "length (failedApproaches s taskId) < 3"
    and "\<forall>m\<in>set ms. \<not> str_includes m ''Invalid URL'' \<and> \<not> str_includes m ''undefined''"
  shows "suggestAlternativeApproach taskId ctx s = Inl TypeError"
proof -
  have ne: "failedApproaches s taskId \<noteq> []" using assms(3) by auto
  have "urlError (map fa_error (failedApproaches s taskId)) = Inl TypeError"
    unfolding assms(3) urlError_def someIncludes_non_string[OF assms(4)] using assms(6) by simp
  then show ?thesis
    using assms(1,2,5) ne by (simp add: suggestAlternativeApproach_def Let_def orEmpty_id)
qed

text \<open>
  For a task of type \<^verbatim>\<open>INFORMATION_GATHERING\<close> with a non-empty failure history of fewer
  than 3 entries, whose recorded errors are message strings \<open>msgs\<close> none of which matches
  a known failure signature (a URL error; a parameter mismatch that mentions
  \<^verbatim>\<open>problem\<close>), \<^verbatim>\<open>suggestAlternativeApproach\<close> returns the first of \<^verbatim>\<open>WEB_SEARCH\<close>,
  \<^verbatim>\<open>READ_URL\<close>, \<^verbatim>\<open>MEMORY_CHECK\<close>, \<^verbatim>\<open>REASONING_TOOL\<close> (in this order) that is not among
  the tried labels, with the confidence 0.9, 0.8, 0.7, 0.6 of that tool and the tried labels
  as \<^verbatim>\<open>previousApproaches\<close>; such a tool exists. Once all four are among the tried
  labels, \<^verbatim>\<open>suggestAlternativeInfoGathering\<close> returns \<^verbatim>\<open>DIRECT_SYNTHESIS\<close> with confidence
  0.7 if that is untried, and \<^verbatim>\<open>ASK_CLARIFICATION\<close> with confidence 0.5 otherwise.
\<close>

lemma information_gathering_on_messages:
  assumes "map_of (tasks s) taskId = Some v"
    and "type_of v = Some ''INFORMATION_GATHERING''"
    and "tried = map fa_approach (failedApproaches s taskId)"
    and "tried \<noteq> []" and "length tried < 3"
    and "map fa_error (failedApproaches s taskId) = map Str msgs"
    and "\<forall>m\<in>set msgs. \<not> str_includes m ''Invalid URL'' \<and> \<not> str_includes m ''undefined''"
    and "\<not> ((\<exists>m\<in>set msgs. str_includes m ''Missing required parameter''
                            \<or> str_includes m ''parameter'')
            \<and> (\<exists>m\<in>set msgs. str_includes m ''problem''))"
  shows "(\<exists>t c. find (\<lambda>t. t \<notin> set tried)
                   [''WEB_SEARCH'', ''READ_URL'', ''MEMORY_CHECK'', ''REASONING_TOOL''] = Some t
            \<and> map_of [(''WEB_SEARCH'', 0.9), (''READ_URL'', 0.8), (''MEMORY_CHECK'', 0.7),
                       (''REASONING_TOOL'', 0.6)] t = Some c
            \<and> suggestAlternativeApproach taskId ctx s
                = Inr (Some \<lparr>approach = t, confidence = c, responseType = None,
                              previousApproaches = Some tried\<rparr>))
       \<and> (set [''WEB_SEARCH'', ''READ_URL'', ''MEMORY_CHECK'', ''REASONING_TOOL''] \<subseteq> set tr \<longrightarrow>
            suggestAlternativeInfoGathering tr =
              (if ''DIRECT_SYNTHESIS'' \<notin> set tr
               then \<lparr>approach = ''DIRECT_SYNTHESIS'', confidence = 0.7, responseType = None,
                     previousApproaches = Some tr\<rparr>
               else \<lparr>approach = ''ASK_CLARIFICATION'', confidence = 0.5, responseType = None,
                     previousApproaches = Some tr\<rparr>))"
proof (intro conjI impI)
  let ?errs = "map fa_error (failedApproaches s taskId)"
  have tv: "truthy v" using assms(2) by (cases v) auto
  have ne: "failedApproaches s taskId \<noteq> []" using assms(3,4) by auto
  have len: "\<not> 3 \<le> length (failedApproaches s taskId)" using assms(3,5) by simp
  have url: "urlError ?errs = Inr False"
    unfolding assms(6) urlError_def someIncludes_strings using assms(7) by auto
  have par: "parameterError ?errs = Inr False"
    unfolding assms(6) parameterError_def someIncludes_strings using assms(8) by auto
  have res: "suggestAlternativeApproach taskId ctx s = Inr (Some (suggestAlternativeInfoGathering tried))"
    using assms(1,2,3) tv ne len url par
    by (simp add: suggestAlternativeApproach_def Let_def byTaskType_def orEmpty_id)
  obtain tc where tc: "firstUntried toolPriorities tried = Some tc"
    using short_history_has_untried[OF assms(5)] by blast
  have f: "find (\<lambda>t. t \<notin> set tried)
             [''WEB_SEARCH'', ''READ_URL'', ''MEMORY_CHECK'', ''REASONING_TOOL''] = Some (fst tc)"
    using firstUntried_find[of toolPriorities tried] tc by (simp add: toolPriorities_def)
  have c: "map_of [(''WEB_SEARCH'', 0.9), (''READ_URL'', 0.8), (''MEMORY_CHECK'', 0.7),
                   (''REASONING_TOOL'', 0.6)] (fst tc) = Some (snd tc)"
    using firstUntried_confidence[OF tc] by (simp add: toolPriorities_def)
  have "suggestAlternativeApproach taskId ctx s
          = Inr (Some \<lparr>approach = fst tc, confidence = snd tc, responseType = None,
                        previousApproaches = Some tried\<rparr>)"
    unfolding res by (simp add: suggestAlternativeInfoGathering_def tc suggest_def)
  with f c show "\<exists>t c. find (\<lambda>t. t \<notin> set tried)
                   [''WEB_SEARCH'', ''READ_URL'', ''MEMORY_CHECK'', ''REASONING_TOOL''] = Some t
            \<and> map_of [(''WEB_SEARCH'', 0.9), (''READ_URL'', 0.8), (''MEMORY_CHECK'', 0.7),
                       (''REASONING_TOOL'', 0.6)] t = Some c
            \<and> suggestAlternativeApproach taskId ctx s
                = Inr (Some \<lparr>approach = t, confidence = c, responseType = None,
                              previousApproaches = Some tried\<rparr>)"
    by blast
next
  assume "set [''WEB_SEARCH'', ''READ_URL'', ''MEMORY_CHECK'', ''REASONING_TOOL''] \<subseteq> set tr"
  then show "suggestAlternativeInfoGathering tr =
              (if ''DIRECT_SYNTHESIS'' \<notin> set tr
               then \<lparr>approach = ''DIRECT_SYNTHESIS'', confidence = 0.7, responseType = None,
                     previousApproaches = Some tr\<rparr>
               else \<lparr>approach = ''ASK_CLARIFICATION'', confidence = 0.5, responseType = None,
                     previousApproaches = Some tr\<rparr>)"
    by (rule infoGathering_exhausted)
qed

lemma information_gathering_on_messages_example:
  "map_option type_of (map_of (tasks (run_ops twoInfoFailures constructor)) ''t4'')
     = Some (Some ''INFORMATION_GATHERING'')
   \<and> map fa_approach (failedApproaches (run_ops twoInfoFailures constructor) ''t4'')
     = [''INFORMATION_GATHERING'', ''WEB_SEARCH'']
   \<and> map fa_error (failedApproaches (run_ops twoInfoFailures constructor) ''t4'')
     = [Str ''request timed out'', Str ''no results'']
   \<and> suggestAlternativeApproach ''t4'' ctx0 (run_ops twoInfoFailures constructor)
     = Inr (Some \<lparr>approach = ''READ_URL'', confidence = 0.8, responseType = None,
                   previousApproaches = Some [''INFORMATION_GATHERING'', ''WEB_SEARCH'']\<rparr>)
   \<and> suggestAlternativeInfoGathering
        [''WEB_SEARCH'', ''READ_URL'', ''MEMORY_CHECK'', ''REASONING_TOOL'', ''DIRECT_SYNTHESIS'']
     = \<lparr>approach = ''ASK_CLARIFICATION'', confidence = 0.5, responseType = None,
        previousApproaches = Some [''WEB_SEARCH'', ''READ_URL'', ''MEMORY_CHECK'',
                                   ''REASONING_TOOL'', ''DIRECT_SYNTHESIS'']\<rparr>"
proof -
  let ?s = "run_ops twoInfoFailures constructor"
  let ?tried = "[''INFORMATION_GATHERING'', ''WEB_SEARCH'']"
  let ?msgs = "[''request timed out'', ''no results'']"
  let ?four = "[''WEB_SEARCH'', ''READ_URL'', ''MEMORY_CHECK'', ''REASONING_TOOL'']"
  let ?all = "[''WEB_SEARCH'', ''READ_URL'', ''MEMORY_CHECK'', ''REASONING_TOOL'', ''DIRECT_SYNTHESIS'']"
  have reg: "map_of (tasks ?s) ''t4'' = Some (the (map_of (tasks ?s) ''t4''))"
    by code_simp
  have ty: "type_of (the (map_of (tasks ?s) ''t4'')) = Some ''INFORMATION_GATHERING''"
    by code_simp
  have tried: "?tried = map fa_approach (failedApproaches ?s ''t4'')"
    by code_simp
  have errs: "map fa_error (failedApproaches ?s ''t4'') = map Str ?msgs"
    by code_simp
  have nu: "\<forall>m\<in>set ?msgs. \<not> str_includes m ''Invalid URL'' \<and> \<not> str_includes m ''undefined''"
    by code_simp
  have np: "\<not> ((\<exists>m\<in>set ?msgs. str_includes m ''Missing required parameter''
                            \<or> str_includes m ''parameter'')
            \<and> (\<exists>m\<in>set ?msgs. str_includes m ''problem''))"
    by code_simp
  have ne: "?tried \<noteq> []" and len: "length ?tried < 3"
    by simp_all
  note th = information_gathering_on_messages[OF reg ty tried ne len errs nu np, of ctx0 ?all]
  have f: "find (\<lambda>t. t \<notin> set ?tried) ?four = Some ''READ_URL''"
    by simp
  have a: "suggestAlternativeApproach ''t4'' ctx0 ?s
             = Inr (Some \<lparr>approach = ''READ_URL'', confidence = 0.8, responseType = None,
                           previousApproaches = Some ?tried\<rparr>)"
    using th unfolding f by auto
  have b: "suggestAlternativeInfoGathering ?all
             = \<lparr>approach = ''ASK_CLARIFICATION'', confidence = 0.5, responseType = None,
                previousApproaches = Some ?all\<rparr>"
    using th by simp
  have c: "map_option type_of (map_of (tasks ?s) ''t4'') = Some (Some ''INFORMATION_GATHERING'')"
    using reg ty by (metis option.simps(9))
  show ?thesis using a b c tried[symmetric] errs by simp
qed

text \<open>
  C8. The claim holds when the recorded errors are message strings, as the lemma
  \<open>information_gathering_on_messages\<close> shows. It fails when \<^verbatim>\<open>recordFailure\<close> is given an
  \<^verbatim>\<open>Error\<close> whose message is empty: \<^verbatim>\<open>error.message || error\<close> then stores the
  \<^verbatim>\<open>Error\<close> object itself, and the check of the error patterns calls \<^verbatim>\<open>e.includes\<close>
  on it. For the \<^verbatim>\<open>INFORMATION_GATHERING\<close> task \<^verbatim>\<open>t4\<close> with that single failure, whose
  empty message matches no failure signature, \<^verbatim>\<open>suggestAlternativeApproach\<close> throws a
  \<^verbatim>\<open>TypeError\<close> and suggests nothing. With the message \<^verbatim>\<open>request timed out\<close> in its
  place it returns \<^verbatim>\<open>WEB_SEARCH\<close> with confidence 0.9, the first tool that was not tried.
\<close>

theorem empty_message_failure_throws:
  "map_option type_of (map_of (tasks (run_ops emptyMessageFailure constructor)) ''t4'')
     = Some (Some ''INFORMATION_GATHERING'')
   \<and> failedApproaches (run_ops emptyMessageFailure constructor) ''t4''
     = [\<lparr>fa_approach = ''INFORMATION_GATHERING'', fa_error = ErrorObject [], fa_timestamp = 2\<rparr>]
   \<and> \<not> str_includes [] ''Invalid URL'' \<and> \<not> str_includes [] ''undefined''
   \<and> \<not> str_includes [] ''Missing required parameter'' \<and> \<not> str_includes [] ''parameter''
   \<and> \<not> str_includes [] ''problem''
   \<and> suggestAlternativeApproach ''t4'' ctx0 (run_ops emptyMessageFailure constructor)
     = Inl TypeError
   \<and> failedApproaches (run_ops oneInfoFailure constructor) ''t4''
     = [\<lparr>fa_approach = ''INFORMATION_GATHERING'', fa_error = Str ''request timed out'',
         fa_timestamp = 2\<rparr>]
   \<and> suggestAlternativeApproach ''t4'' ctx0 (run_ops oneInfoFailure constructor)
     = Inr (Some \<lparr>approach = ''WEB_SEARCH'', confidence = 0.9, responseType = None,
                   previousApproaches = Some [''INFORMATION_GATHERING'']\<rparr>)"
  by code_simp

subsection \<open>Restoring a checkpoint\<close>

text \<open>
  C10. If the buffer holds no checkpoint named \<open>nm\<close>, \<^verbatim>\<open>restoreCheckpoint\<close> returns
  false and leaves the manager as it is. Otherwise, after any run from a fresh manager, it
  restores the first checkpoint of that name in the retained part of the creation log,
  that is the earliest created one that the buffer still holds, however many later
  checkpoints bear the same name.
\<close>

theorem restore_unknown_or_earliest:
  "(\<not> list_ex (\<lambda>cp. name cp = nm) (checkpoints s) \<longrightarrow> restoreCheckpoint nm s = (False, s))
   \<and> (find (\<lambda>cp. name cp = nm) (last10 (created ops constructor)) = Some cp \<longrightarrow>
        restoreCheckpoint nm (run_ops ops constructor) =
          (True, (run_ops ops constructor)
                   \<lparr>tasks := map (\<lambda>kv. (fst kv, Prim (snd kv))) (taskStates cp),
                    results := resultsSnapshot cp,
                    approaches := approachesSnapshot cp\<rparr>))"
proof (intro conjI impI)
  assume "\<not> list_ex (\<lambda>cp. name cp = nm) (checkpoints s)"
  then have "find (\<lambda>cp. name cp = nm) (checkpoints s) = None"
    by (simp add: find_None_iff list_ex_iff)
  then show "restoreCheckpoint nm s = (False, s)"
    by (simp add: restoreCheckpoint_def)
next
  assume f: "find (\<lambda>cp. name cp = nm) (last10 (created ops constructor)) = Some cp"
  have "length (checkpoints constructor) \<le> 10" by (simp add: constructor_def)
  from run_ops_buffer[OF this, of ops]
  have "checkpoints (run_ops ops constructor) = last10 (created ops constructor)"
    by (simp add: constructor_def)
  with f show "restoreCheckpoint nm (run_ops ops constructor) =
          (True, (run_ops ops constructor)
                   \<lparr>tasks := map (\<lambda>kv. (fst kv, Prim (snd kv))) (taskStates cp),
                    results := resultsSnapshot cp,
                    approaches := approachesSnapshot cp\<rparr>)"
    by (simp add: restoreCheckpoint_def)
qed

theorem restore_unknown_or_earliest_witness:
  "map (\<lambda>c. (name c, timestamp c)) (checkpoints (run_ops repeatedFailure constructor)) =
     [(''plan_initialized'', 1), (''task_t4_failed'', 2), (''task_t3_completed'', 3),
      (''task_t4_failed'', 4)]
   \<and> map resultsSnapshot (checkpoints (run_ops repeatedFailure constructor)) =
     [[], [], [(''t3'', okResult)], [(''t3'', okResult)]]
   \<and> fst (restoreCheckpoint ''task_t4_failed'' (run_ops repeatedFailure constructor))
   \<and> results (snd (restoreCheckpoint ''task_t4_failed'' (run_ops repeatedFailure constructor))) = []
   \<and> tasks (snd (restoreCheckpoint ''task_t4_failed'' (run_ops repeatedFailure constructor))) =
       [(''t3'', Prim (Some PENDING)), (''t4'', Prim (Some FAILED))]
   \<and> restoreCheckpoint ''task_t9_failed'' (run_ops repeatedFailure constructor) =
       (False, run_ops repeatedFailure constructor)"
proof -
  let ?s = "run_ops repeatedFailure constructor"
  let ?cp = "last10 (created repeatedFailure constructor) ! 1"
  have stamps: "map (\<lambda>c. (name c, timestamp c)) (checkpoints ?s) =
     [(''plan_initialized'', 1), (''task_t4_failed'', 2), (''task_t3_completed'', 3),
      (''task_t4_failed'', 4)]"
    by code_simp
  have snaps: "map resultsSnapshot (checkpoints ?s) = [[], [], [(''t3'', okResult)], [(''t3'', okResult)]]"
    by code_simp
  have first: "find (\<lambda>cp. name cp = ''task_t4_failed'') (last10 (created repeatedFailure constructor))
                 = Some ?cp"
    by code_simp
  have absent: "\<not> list_ex (\<lambda>cp. name cp = ''task_t9_failed'') (checkpoints ?s)"
    by code_simp
  have cp: "resultsSnapshot ?cp = []"
      "map (\<lambda>kv. (fst kv, Prim (snd kv))) (taskStates ?cp) =
         [(''t3'', Prim (Some PENDING)), (''t4'', Prim (Some FAILED))]"
    by code_simp+
  have r: "restoreCheckpoint ''task_t4_failed'' ?s =
          (True, ?s\<lparr>tasks := map (\<lambda>kv. (fst kv, Prim (snd kv))) (taskStates ?cp),
                    results := resultsSnapshot ?cp,
                    approaches := approachesSnapshot ?cp\<rparr>)"
    using restore_unknown_or_earliest[of "''task_t4_failed''" ?s repeatedFailure ?cp] first
    by blast
  have n: "restoreCheckpoint ''task_t9_failed'' ?s = (False, ?s)"
    using restore_unknown_or_earliest[of "''task_t9_failed''" ?s repeatedFailure ?cp] absent
    by blast
  show ?thesis
    unfolding r n using stamps snaps cp by simp
qed

text \<open>
  C2. Restoring \<^verbatim>\<open>plan_initialized\<close> and creating a checkpoint right away does not
  reproduce the task states: \<^verbatim>\<open>restoreCheckpoint\<close> stores the state strings themselves in
  the \<^verbatim>\<open>tasks\<close> map, and \<^verbatim>\<open>createCheckpoint\<close> reads \<^verbatim>\<open>task.state\<close> of each, which is
  \<^verbatim>\<open>undefined\<close> for a string. The first checkpoint maps \<^verbatim>\<open>t3\<close> to \<^verbatim>\<open>pending\<close>, the new
  one maps it to \<^verbatim>\<open>undefined\<close>.
\<close>

theorem restore_then_checkpoint_loses_states:
  "map name (checkpoints (run_ops restoreThenCheckpoint constructor)) = [''plan_initialized'', ''again'']
   \<and> map taskStates (checkpoints (run_ops restoreThenCheckpoint constructor)) =
       [[(''t3'', Some PENDING)], [(''t3'', None)]]"
  by code_simp

text \<open>
  C3. A checkpoint shares the failure arrays with the live map. The checkpoint created by
  the first failure of \<^verbatim>\<open>t3\<close> shows a history of one entry when it is created; after the
  second failure the same checkpoint, still in the buffer, shows two.
\<close>

theorem checkpoint_history_changes_after_creation:
  "name (last (checkpoints (run_ops firstFailure constructor))) = ''task_t3_failed''
   \<and> checkpoints (run_ops secondFailure (run_ops firstFailure constructor)) ! 1
       = last (checkpoints (run_ops firstFailure constructor))
   \<and> map fa_approach
        (historyAt (arrays (run_ops firstFailure constructor))
           (last (checkpoints (run_ops firstFailure constructor))) ''t3'')
       = [''TOOL_SELECTION'']
   \<and> map fa_approach
        (historyAt (arrays (run_ops secondFailure (run_ops firstFailure constructor)))
           (last (checkpoints (run_ops firstFailure constructor))) ''t3'')
       = [''TOOL_SELECTION'', ''READ_URL'']"
  by code_simp

section \<open>Properties of the dependency resolver\<close>

text \<open>
  C1, as stated, fails: a \<^verbatim>\<open>MEMORY_CHECK\<close> task \<^verbatim>\<open>a\<close> that depends on a
  \<^verbatim>\<open>SYNTHESIS\<close> task \<^verbatim>\<open>b\<close> is placed before it, since the canonical re-sort orders the
  steps by type whatever their dependencies are.
\<close>

theorem dependency_order_counterexample:
  "map task_id (resolve (Some memoryAfterSynthesis)) = [''a'', ''b'']
   \<and> dependencies (resolve (Some memoryAfterSynthesis) ! 0) = [''b'']
   \<and> \<not> dependenciesFirst (resolve (Some memoryAfterSynthesis))"
  by code_simp

text \<open>
  Among tasks of one type the order is the one \<^verbatim>\<open>sortTasksByDependencies\<close> produced, and
  that function reverses the post-order of its depth-first visit: a task comes before the
  task it depends on, and the default tasks come out last to first.
\<close>

lemma dependents_first_among_equal_types:
  "map task_id (resolve (Some [mkTask ''g1'' ''INFORMATION_GATHERING'' [''g2''],
                               mkTask ''g2'' ''INFORMATION_GATHERING'' []])) = [''g1'', ''g2'']
   \<and> map task_id (sortTasksByDependencies (enforceLogicalDependencies getDefaultTasks))
       = [''task-5'', ''task-4'', ''task-3'', ''task-2'', ''task-1'']"
  by code_simp

lemma sorted_canonicalOrder: "sorted (map typeRank (canonicalOrder ts))"
  by (simp add: canonicalOrder_def)

lemma logicalOrder_pairs:
  assumes "List.member (logicalOrder a) b"
  shows "(a, b) \<in> set [(''TOOL_SELECTION'', ''INTENT_CLASSIFICATION''),
                        (''TOOL_SELECTION'', ''MEMORY_CHECK''),
                        (''INFORMATION_GATHERING'', ''TOOL_SELECTION''),
                        (''SYNTHESIS'', ''INFORMATION_GATHERING''),
                        (''VERIFICATION'', ''SYNTHESIS'')]"
  using assms
  by (simp add: logicalOrder_def List.member_iff split: if_splits)

lemma rank_values:
  "task_type t = ''MEMORY_CHECK'' \<Longrightarrow> typeRank t = 0"
  "task_type t = ''INTENT_CLASSIFICATION'' \<Longrightarrow> typeRank t = 1"
  "task_type t = ''TOOL_SELECTION'' \<Longrightarrow> typeRank t = 2"
  "task_type t = ''INFORMATION_GATHERING'' \<Longrightarrow> typeRank t = 3"
  "task_type t = ''SYNTHESIS'' \<Longrightarrow> typeRank t = 4"
  "task_type t = ''VERIFICATION'' \<Longrightarrow> typeRank t = 5"
  by (simp_all add: typeRank_def typeOrder_def)

lemma logicalOrder_ranks:
  assumes "List.member (logicalOrder (task_type t)) (task_type u)"
  shows "typeRank u < typeRank t"
  using logicalOrder_pairs[OF assms]
  by (auto simp add: rank_values simp del: list.inject char.inject)

text \<open>
  C1, amended. The resolved order is sorted by canonical type rank, so a task stands
  after every task that it depends on and whose type comes strictly earlier in the
  canonical type order. Every type that the logical-dependency table requires comes
  strictly earlier than the type that requires it.
\<close>

theorem dependencies_respected_across_types:
  "(i < length (resolve d) \<and> j < length (resolve d)
      \<and> List.member (dependencies (resolve d ! i)) (task_id (resolve d ! j))
      \<and> typeRank (resolve d ! j) < typeRank (resolve d ! i)
    \<longrightarrow> j < i)
   \<and> (List.member (logicalOrder (task_type t)) (task_type u) \<longrightarrow> typeRank u < typeRank t)"
proof (intro conjI impI)
  assume a: "i < length (resolve d) \<and> j < length (resolve d)
      \<and> List.member (dependencies (resolve d ! i)) (task_id (resolve d ! j))
      \<and> typeRank (resolve d ! j) < typeRank (resolve d ! i)"
  show "j < i"
  proof (rule ccontr)
    assume "\<not> j < i"
    then have "i \<le> j" by simp
    moreover have "sorted (map typeRank (resolve d))"
      by (simp add: resolve_def sorted_canonicalOrder)
    ultimately have "map typeRank (resolve d) ! i \<le> map typeRank (resolve d) ! j"
      using a by (simp add: sorted_iff_nth_mono del: nth_map)
    then show False using a by simp
  qed
next
  assume "List.member (logicalOrder (task_type t)) (task_type u)"
  then show "typeRank u < typeRank t" by (rule logicalOrder_ranks)
qed

theorem dependencies_respected_across_types_witness:
  "map task_id (resolve (Some synthesisFirst)) = [''g'', ''s'']
   \<and> List.member (dependencies (resolve (Some synthesisFirst) ! 1)) (task_id (resolve (Some synthesisFirst) ! 0))
   \<and> typeRank (resolve (Some synthesisFirst) ! 0) < typeRank (resolve (Some synthesisFirst) ! 1)
   \<and> (0::nat) < 1
   \<and> List.member (logicalOrder ''SYNTHESIS'') ''INFORMATION_GATHERING''
   \<and> typeRank (mkTask ''g'' ''INFORMATION_GATHERING'' []) < typeRank (mkTask ''s'' ''SYNTHESIS'' [''g''])"
proof -
  let ?r = "resolve (Some synthesisFirst)"
  let ?g = "mkTask ''g'' ''INFORMATION_GATHERING'' []" and ?s = "mkTask ''s'' ''SYNTHESIS'' [''g'']"
  have ids: "map task_id ?r = [''g'', ''s'']" by code_simp
  have h: "1 < length ?r" "0 < length ?r" "List.member (dependencies (?r ! 1)) (task_id (?r ! 0))"
      "typeRank (?r ! 0) < typeRank (?r ! 1)"
    by code_simp+
  have m: "List.member (logicalOrder (task_type ?s)) (task_type ?g)" by code_simp
  have m': "List.member (logicalOrder ''SYNTHESIS'') ''INFORMATION_GATHERING''" by code_simp
  from dependencies_respected_across_types[of 1 "Some synthesisFirst" 0 ?s ?g] h m
  have "(0::nat) < 1" and "typeRank ?g < typeRank ?s" by blast+
  then show ?thesis using ids h m' by blast
qed

section \<open>Properties of the step executor\<close>

subsection \<open>Managers that hold task objects only\<close>

lemma objectsOnly_defined: "objectsOnly s \<Longrightarrow> \<not> has_undefined (tasks s)"
  by (auto simp add: objectsOnly_def has_undefined_def list_all_iff list_ex_iff)

lemma list_all_update:
  "list_all (\<lambda>kv. P (snd kv)) al \<Longrightarrow> P v \<Longrightarrow> list_all (\<lambda>kv. P (snd kv)) (AList.update k v al)"
  by (induction al) auto

lemma map_update:
  "map (\<lambda>kv. (fst kv, f (snd kv))) (AList.update k v al)
     = AList.update k (f v) (map (\<lambda>kv. (fst kv, f (snd kv))) al)"
  by (induction al) auto

lemma registered_obj:
  assumes "objectsOnly s" "map_of (tasks s) i = Some v"
  shows "isObj v"
  using assms map_of_SomeD[OF assms(2)]
  by (auto simp add: objectsOnly_def list_all_iff)

lemma updateTaskState_objects:
  assumes "objectsOnly s"
  shows "objectsOnly (snd (updateTaskState i st now s))"
    and "statesOf (snd (updateTaskState i st now s)) =
           (if map_of (tasks s) i = None then statesOf s
            else AList.update i (Some st) (statesOf s))"
proof -
  show "objectsOnly (snd (updateTaskState i st now s))"
    using assms
    by (auto simp add: updateTaskState_def Let_def objectsOnly_def list_all_update
             split: option.splits task_val.splits)
  show "statesOf (snd (updateTaskState i st now s)) =
           (if map_of (tasks s) i = None then statesOf s
            else AList.update i (Some st) (statesOf s))"
  proof (cases "map_of (tasks s) i")
    case None
    then show ?thesis by (simp add: updateTaskState_def)
  next
    case (Some v)
    then obtain t where v: "v = Obj t" using registered_obj[OF assms Some] by (cases v) auto
    show ?thesis using Some v
      by (simp add: updateTaskState_def Let_def statesOf_def map_update)
  qed
qed

lemma statesOf_keys: "map fst (statesOf s) = map fst (tasks s)"
  by (simp add: statesOf_def comp_def)

lemma map_of_statesOf_None: "(map_of (statesOf s) i = None) = (map_of (tasks s) i = None)"
  by (simp add: map_of_eq_None_iff statesOf_def image_image)

lemma createCheckpoint_objects:
  assumes "objectsOnly s"
  shows "fst (createCheckpoint nm now s) = Inr ()"
    and "objectsOnly (snd (createCheckpoint nm now s))"
    and "statesOf (snd (createCheckpoint nm now s)) = statesOf s"
  using assms objectsOnly_defined[OF assms]
  by (simp_all add: createCheckpoint_def Let_def objectsOnly_def statesOf_def)

lemma recordSuccess_objects:
  assumes "objectsOnly s"
  shows "fst (recordSuccess i r now s) = Inr True"
    and "objectsOnly (snd (recordSuccess i r now s))"
    and "statesOf (snd (recordSuccess i r now s)) =
           (if map_of (tasks s) i = None then statesOf s
            else AList.update i (Some COMPLETED) (statesOf s))"
proof -
  let ?s2 = "(snd (updateTaskState i COMPLETED now s))\<lparr>results := AList.update i r (results s)\<rparr>"
  have o2: "objectsOnly ?s2"
    using updateTaskState_objects(1)[OF assms, of i COMPLETED now] by (simp add: objectsOnly_def)
  have s2: "statesOf ?s2 = (if map_of (tasks s) i = None then statesOf s
            else AList.update i (Some COMPLETED) (statesOf s))"
    using updateTaskState_objects(2)[OF assms, of i COMPLETED now] by (simp add: statesOf_def)
  show "fst (recordSuccess i r now s) = Inr True"
    using createCheckpoint_objects(1)[OF o2] by (simp add: recordSuccess_def Let_def)
  show "objectsOnly (snd (recordSuccess i r now s))"
    using createCheckpoint_objects(2)[OF o2] by (simp add: recordSuccess_snd)
  show "statesOf (snd (recordSuccess i r now s)) =
           (if map_of (tasks s) i = None then statesOf s
            else AList.update i (Some COMPLETED) (statesOf s))"
    using createCheckpoint_objects(3)[OF o2] s2 by (simp add: recordSuccess_snd)
qed

lemma getTaskStatus_objects:
  assumes "objectsOnly s"
  shows "getTaskStatus s =
     Inr \<lparr>count_pending = length (filter (\<lambda>kv. snd kv = Some PENDING) (statesOf s)),
          count_inProgress = length (filter (\<lambda>kv. snd kv = Some IN_PROGRESS) (statesOf s)),
          count_completed = length (filter (\<lambda>kv. snd kv = Some COMPLETED) (statesOf s)),
          count_failed = length (filter (\<lambda>kv. snd kv = Some FAILED) (statesOf s)),
          count_skipped = length (filter (\<lambda>kv. snd kv = Some SKIPPED) (statesOf s)),
          count_total = length (statesOf s)\<rparr>"
  using objectsOnly_defined[OF assms]
  by (simp add: getTaskStatus_def count_state_def statesOf_def filter_map comp_def)

lemma logTaskExecution_objects:
  assumes "objectsOnly (stateManager p)"
  shows "logTaskExecution p taskId = None"
  using objectsOnly_defined[OF assms]
  by (simp add: logTaskExecution_def getTaskStatus_def split: option.splits)

lemma step_succeeds:
  assumes idx: "currentStepIndex p < length (steps p)"
    and st: "steps p ! currentStepIndex p = st"
    and ident: "task_id st \<noteq> []"
    and obj: "objectsOnly (stateManager p)"
    and reg: "map_of (statesOf (stateManager p)) (task_id st) \<noteq> None"
    and val: "valid (validateStepInputs st p)"
    and d: "dispatch e st (plan_results p) = Returns r"
  shows "\<exists>p'. executeNextStep e ctx now p = Inr p'
           \<and> steps p' = steps p
           \<and> currentStepIndex p' = Suc (currentStepIndex p)
           \<and> plan_results p' = plan_results p @ [\<lparr>step = st, result = r, alternative = None\<rparr>]
           \<and> completed p' = (length (steps p) \<le> Suc (currentStepIndex p))
           \<and> objectsOnly (stateManager p')
           \<and> statesOf (stateManager p') =
               AList.update (task_id st) (Some COMPLETED) (statesOf (stateManager p))"
proof -
  let ?i = "task_id st"
  let ?sm1 = "snd (updateTaskState ?i IN_PROGRESS now (stateManager p))"
  let ?rs = "recordSuccess ?i r now ?sm1"
  have r0: "map_of (tasks (stateManager p)) ?i \<noteq> None"
    using reg by (simp add: map_of_statesOf_None)
  have o1: "objectsOnly ?sm1" using obj by (rule updateTaskState_objects(1))
  have s1: "statesOf ?sm1 = AList.update ?i (Some IN_PROGRESS) (statesOf (stateManager p))"
    using updateTaskState_objects(2)[OF obj, of ?i IN_PROGRESS now] r0 by simp
  have r1: "map_of (tasks ?sm1) ?i \<noteq> None"
    using s1 by (metis map_of_statesOf_None option.distinct(1) update_Some_unfold)
  have ok: "fst ?rs = Inr True" using o1 by (rule recordSuccess_objects(1))
  have o2: "objectsOnly (snd ?rs)" using o1 by (rule recordSuccess_objects(2))
  have s2: "statesOf (snd ?rs) = AList.update ?i (Some COMPLETED) (statesOf (stateManager p))"
    using recordSuccess_objects(3)[OF o1, of ?i r now] r1 by (simp add: s1)
  have att: "attempt e ctx now p st ?i = Inr (succeeded p st r None (snd ?rs))"
    using d ok by (simp add: attempt_def Let_def)
  have "executeNextStep e ctx now p = Inr (succeeded p st r None (snd ?rs))"
    using idx st ident val att logTaskExecution_objects[OF obj]
    by (subst executeNextStep.simps) (simp add: Let_def taskIdOf_def)
  then show ?thesis
    using o2 s2 by (simp add: succeeded_def)
qed

subsection \<open>The default plan when every call succeeds\<close>

lemma succeeds_returns:
  assumes "succeeds e"
    and "c \<in> set [MemoryCheck, IntentClassification, ToolSelection, InformationGathering, Synthesis]"
  shows "\<exists>r. e c = Returns r \<and> success r"
  using assms by (auto simp add: succeeds_def split: outcome.splits)

lemma default_steps:
  "withBookends (canonicalOrder (decomposeQuery None)) = getDefaultTasks @ [verificationTask]"
  by code_simp

lemma default_plan_initial:
  "steps (planQueryExecution q None now) = getDefaultTasks @ [verificationTask]"
  "currentStepIndex (planQueryExecution q None now) = 0"
  "plan_results (planQueryExecution q None now) = []"
  "objectsOnly (stateManager (planQueryExecution q None now))"
  "statesOf (stateManager (planQueryExecution q None now)) =
     [(''task-1'', Some PENDING), (''task-2'', Some PENDING), (''task-3'', Some PENDING),
      (''task-4'', Some PENDING), (''task-5'', Some PENDING), (''task-verification'', Some PENDING)]"
  by (simp_all add: planQueryExecution_def default_steps Let_def getDefaultTasks_def
        verificationTask_def initializePlan_def register_def taskIdOf_def constructor_def
        objectsOnly_def statesOf_def)

text \<open>
  C9, amended. The plan built when decomposition fails has 6 steps: the 5 default tasks
  and the \<^verbatim>\<open>VERIFICATION\<close> task that \<^verbatim>\<open>planQueryExecution\<close> appends. If every
  collaborator call returns a successful result, then after 6 calls of \<^verbatim>\<open>executeNextStep\<close>
  the plan is completed, \<^verbatim>\<open>plan.results\<close> has exactly 6 entries, in the canonical type
  order and none from an alternative, and \<^verbatim>\<open>getTaskStatus\<close> reports 6 completed tasks and
  none in any other state.
\<close>

theorem default_plan_all_succeed:
  assumes len: "length envs = 6" and ok: "list_all (\<lambda>x. succeeds (fst x)) envs"
  shows "\<exists>p. runPlan envs ctx (planQueryExecution q None now) = Inr p
           \<and> completed p
           \<and> length (plan_results p) = 6
           \<and> map (\<lambda>r. task_type (step r)) (plan_results p) = typeOrder
           \<and> list_all (\<lambda>r. alternative r = None) (plan_results p)
           \<and> getTaskStatus (stateManager p) =
               Inr \<lparr>count_pending = 0, count_inProgress = 0, count_completed = 6,
                    count_failed = 0, count_skipped = 0, count_total = 6\<rparr>"
proof -
  let ?D = "getDefaultTasks @ [verificationTask]"
  let ?p0 = "planQueryExecution q None now"
  obtain x1 x2 x3 x4 x5 x6 where envs: "envs = [x1, x2, x3, x4, x5, x6]"
    using len by (auto simp add: length_Suc_conv numeral_eq_Suc)
  define t1 where "t1 = ?D ! 0"
  define t2 where "t2 = ?D ! 1"
  define t3 where "t3 = ?D ! 2"
  define t4 where "t4 = ?D ! 3"
  define t5 where "t5 = ?D ! 4"
  define t6 where "t6 = ?D ! 5"
  note t_defs = t1_def t2_def t3_def t4_def t5_def t6_def
  have D: "?D = [t1, t2, t3, t4, t5, t6]"
    by (simp add: t_defs getDefaultTasks_def verificationTask_def)
  have nD: "length ?D = 6"
    by (simp add: getDefaultTasks_def)
  have types: "task_type t1 = ''MEMORY_CHECK''" "task_type t2 = ''INTENT_CLASSIFICATION''"
      "task_type t3 = ''TOOL_SELECTION''" "task_type t4 = ''INFORMATION_GATHERING''"
      "task_type t5 = ''SYNTHESIS''" "task_type t6 = ''VERIFICATION''"
    and idents: "task_id t1 = ''task-1''" "task_id t2 = ''task-2''"
      "task_id t3 = ''task-3''" "task_id t4 = ''task-4''"
      "task_id t5 = ''task-5''" "task_id t6 = ''task-verification''"
    by (simp_all add: t_defs getDefaultTasks_def verificationTask_def)
  obtain r1 where r1: "fst x1 MemoryCheck = Returns r1" "success r1"
    using succeeds_returns[of "fst x1" MemoryCheck] ok envs by auto
  obtain r2 where r2: "fst x2 IntentClassification = Returns r2" "success r2"
    using succeeds_returns[of "fst x2" IntentClassification] ok envs by auto
  obtain r3 where r3: "fst x3 ToolSelection = Returns r3" "success r3"
    using succeeds_returns[of "fst x3" ToolSelection] ok envs by auto
  obtain r4 where r4: "fst x4 InformationGathering = Returns r4" "success r4"
    using succeeds_returns[of "fst x4" InformationGathering] ok envs by auto
  obtain r5 where r5: "fst x5 Synthesis = Returns r5" "success r5"
    using succeeds_returns[of "fst x5" Synthesis] ok envs by auto
  let ?five = "[\<lparr>step = t1, result = r1, alternative = None\<rparr>, \<lparr>step = t2, result = r2, alternative = None\<rparr>, \<lparr>step = t3, result = r3, alternative = None\<rparr>, \<lparr>step = t4, result = r4, alternative = None\<rparr>, \<lparr>step = t5, result = r5, alternative = None\<rparr>]"
  note ini = default_plan_initial[of q now, unfolded D]
  have "\<exists>p'. executeNextStep (fst x1) ctx (snd x1) ?p0 = Inr p'
           \<and> steps p' = steps ?p0
           \<and> currentStepIndex p' = Suc (currentStepIndex ?p0)
           \<and> plan_results p' = plan_results ?p0 @ [\<lparr>step = t1, result = r1, alternative = None\<rparr>]
           \<and> completed p' = (length (steps ?p0) \<le> Suc (currentStepIndex ?p0))
           \<and> objectsOnly (stateManager p')
           \<and> statesOf (stateManager p') =
               AList.update (task_id (t1)) (Some COMPLETED) (statesOf (stateManager ?p0))"
  proof (rule step_succeeds)
    show "currentStepIndex ?p0 < length (steps ?p0)" using ini by simp
    show "steps ?p0 ! currentStepIndex ?p0 = t1" using ini by simp
    show "task_id (t1) \<noteq> []" by (simp add: idents)
    show "objectsOnly (stateManager ?p0)" using ini by simp
    show "map_of (statesOf (stateManager ?p0)) (task_id (t1)) \<noteq> None"
      using ini by (simp add: idents)
    show "valid (validateStepInputs (t1) ?p0)"
      using ini r3 r4 r5 by (simp add: validateStepInputs_def hasSuccessful_def types)
    show "dispatch (fst x1) (t1) (plan_results ?p0) = Returns (r1)"
      using ini r1 r2 r3 r4 r5 by (simp add: dispatch_def types)
  qed
  then obtain p1 where p1:
      "executeNextStep (fst x1) ctx (snd x1) ?p0 = Inr p1"
      "steps p1 = [t1, t2, t3, t4, t5, t6]"
      "currentStepIndex p1 = 1"
      "plan_results p1 = [\<lparr>step = t1, result = r1, alternative = None\<rparr>]"
      "completed p1 = False"
      "objectsOnly (stateManager p1)"
      "statesOf (stateManager p1) = [(''task-1'', Some COMPLETED), (''task-2'', Some PENDING), (''task-3'', Some PENDING), (''task-4'', Some PENDING), (''task-5'', Some PENDING), (''task-verification'', Some PENDING)]"
    using ini by (auto simp add: idents)
  have "\<exists>p'. executeNextStep (fst x2) ctx (snd x2) p1 = Inr p'
           \<and> steps p' = steps p1
           \<and> currentStepIndex p' = Suc (currentStepIndex p1)
           \<and> plan_results p' = plan_results p1 @ [\<lparr>step = t2, result = r2, alternative = None\<rparr>]
           \<and> completed p' = (length (steps p1) \<le> Suc (currentStepIndex p1))
           \<and> objectsOnly (stateManager p')
           \<and> statesOf (stateManager p') =
               AList.update (task_id (t2)) (Some COMPLETED) (statesOf (stateManager p1))"
  proof (rule step_succeeds)
    show "currentStepIndex p1 < length (steps p1)" using p1 by simp
    show "steps p1 ! currentStepIndex p1 = t2" using p1 by simp
    show "task_id (t2) \<noteq> []" by (simp add: idents)
    show "objectsOnly (stateManager p1)" using p1 by simp
    show "map_of (statesOf (stateManager p1)) (task_id (t2)) \<noteq> None"
      using p1 by (simp add: idents)
    show "valid (validateStepInputs (t2) p1)"
      using p1 r3 r4 r5 by (simp add: validateStepInputs_def hasSuccessful_def types)
    show "dispatch (fst x2) (t2) (plan_results p1) = Returns (r2)"
      using p1 r1 r2 r3 r4 r5 by (simp add: dispatch_def types)
  qed
  then obtain p2 where p2:
      "executeNextStep (fst x2) ctx (snd x2) p1 = Inr p2"
      "steps p2 = [t1, t2, t3, t4, t5, t6]"
      "currentStepIndex p2 = 2"
      "plan_results p2 = [\<lparr>step = t1, result = r1, alternative = None\<rparr>, \<lparr>step = t2, result = r2, alternative = None\<rparr>]"
      "completed p2 = False"
      "objectsOnly (stateManager p2)"
      "statesOf (stateManager p2) = [(''task-1'', Some COMPLETED), (''task-2'', Some COMPLETED), (''task-3'', Some PENDING), (''task-4'', Some PENDING), (''task-5'', Some PENDING), (''task-verification'', Some PENDING)]"
    using p1 by (auto simp add: idents)
  have "\<exists>p'. executeNextStep (fst x3) ctx (snd x3) p2 = Inr p'
           \<and> steps p' = steps p2
           \<and> currentStepIndex p' = Suc (currentStepIndex p2)
           \<and> plan_results p' = plan_results p2 @ [\<lparr>step = t3, result = r3, alternative = None\<rparr>]
           \<and> completed p' = (length (steps p2) \<le> Suc (currentStepIndex p2))
           \<and> objectsOnly (stateManager p')
           \<and> statesOf (stateManager p') =
               AList.update (task_id (t3)) (Some COMPLETED) (statesOf (stateManager p2))"
  proof (rule step_succeeds)
    show "currentStepIndex p2 < length (steps p2)" using p2 by simp
    show "steps p2 ! currentStepIndex p2 = t3" using p2 by simp
    show "task_id (t3) \<noteq> []" by (simp add: idents)
    show "objectsOnly (stateManager p2)" using p2 by simp
    show "map_of (statesOf (stateManager p2)) (task_id (t3)) \<noteq> None"
      using p2 by (simp add: idents)
    show "valid (validateStepInputs (t3) p2)"
      using p2 r3 r4 r5 by (simp add: validateStepInputs_def hasSuccessful_def types)
    show "dispatch (fst x3) (t3) (plan_results p2) = Returns (r3)"
      using p2 r1 r2 r3 r4 r5 by (simp add: dispatch_def types)
  qed
  then obtain p3 where p3:
      "executeNextStep (fst x3) ctx (snd x3) p2 = Inr p3"
      "steps p3 = [t1, t2, t3, t4, t5, t6]"
      "currentStepIndex p3 = 3"
      "plan_results p3 = [\<lparr>step = t1, result = r1, alternative = None\<rparr>, \<lparr>step = t2, result = r2, alternative = None\<rparr>, \<lparr>step = t3, result = r3, alternative = None\<rparr>]"
      "completed p3 = False"
      "objectsOnly (stateManager p3)"
      "statesOf (stateManager p3) = [(''task-1'', Some COMPLETED), (''task-2'', Some COMPLETED), (''task-3'', Some COMPLETED), (''task-4'', Some PENDING), (''task-5'', Some PENDING), (''task-verification'', Some PENDING)]"
    using p2 by (auto simp add: idents)
  have "\<exists>p'. executeNextStep (fst x4) ctx (snd x4) p3 = Inr p'
           \<and> steps p' = steps p3
           \<and> currentStepIndex p' = Suc (currentStepIndex p3)
           \<and> plan_results p' = plan_results p3 @ [\<lparr>step = t4, result = r4, alternative = None\<rparr>]
           \<and> completed p' = (length (steps p3) \<le> Suc (currentStepIndex p3))
           \<and> objectsOnly (stateManager p')
           \<and> statesOf (stateManager p') =
               AList.update (task_id (t4)) (Some COMPLETED) (statesOf (stateManager p3))"
  proof (rule step_succeeds)
    show "currentStepIndex p3 < length (steps p3)" using p3 by simp
    show "steps p3 ! currentStepIndex p3 = t4" using p3 by simp
    show "task_id (t4) \<noteq> []" by (simp add: idents)
    show "objectsOnly (stateManager p3)" using p3 by simp
    show "map_of (statesOf (stateManager p3)) (task_id (t4)) \<noteq> None"
      using p3 by (simp add: idents)
    show "valid (validateStepInputs (t4) p3)"
      using p3 r3 r4 r5 by (simp add: validateStepInputs_def hasSuccessful_def types)
    show "dispatch (fst x4) (t4) (plan_results p3) = Returns (r4)"
      using p3 r1 r2 r3 r4 r5 by (simp add: dispatch_def types)
  qed
  then obtain p4 where p4:
      "executeNextStep (fst x4) ctx (snd x4) p3 = Inr p4"
      "steps p4 = [t1, t2, t3, t4, t5, t6]"
      "currentStepIndex p4 = 4"
      "plan_results p4 = [\<lparr>step = t1, result = r1, alternative = None\<rparr>, \<lparr>step = t2, result = r2, alternative = None\<rparr>, \<lparr>step = t3, result = r3, alternative = None\<rparr>, \<lparr>step = t4, result = r4, alternative = None\<rparr>]"
      "completed p4 = False"
      "objectsOnly (stateManager p4)"
      "statesOf (stateManager p4) = [(''task-1'', Some COMPLETED), (''task-2'', Some COMPLETED), (''task-3'', Some COMPLETED), (''task-4'', Some COMPLETED), (''task-5'', Some PENDING), (''task-verification'', Some PENDING)]"
    using p3 by (auto simp add: idents)
  have "\<exists>p'. executeNextStep (fst x5) ctx (snd x5) p4 = Inr p'
           \<and> steps p' = steps p4
           \<and> currentStepIndex p' = Suc (currentStepIndex p4)
           \<and> plan_results p' = plan_results p4 @ [\<lparr>step = t5, result = r5, alternative = None\<rparr>]
           \<and> completed p' = (length (steps p4) \<le> Suc (currentStepIndex p4))
           \<and> objectsOnly (stateManager p')
           \<and> statesOf (stateManager p') =
               AList.update (task_id (t5)) (Some COMPLETED) (statesOf (stateManager p4))"
  proof (rule step_succeeds)
    show "currentStepIndex p4 < length (steps p4)" using p4 by simp
    show "steps p4 ! currentStepIndex p4 = t5" using p4 by simp
    show "task_id (t5) \<noteq> []" by (simp add: idents)
    show "objectsOnly (stateManager p4)" using p4 by simp
    show "map_of (statesOf (stateManager p4)) (task_id (t5)) \<noteq> None"
      using p4 by (simp add: idents)
    show "valid (validateStepInputs (t5) p4)"
      using p4 r3 r4 r5 by (simp add: validateStepInputs_def hasSuccessful_def types)
    show "dispatch (fst x5) (t5) (plan_results p4) = Returns (r5)"
      using p4 r1 r2 r3 r4 r5 by (simp add: dispatch_def types)
  qed
  then obtain p5 where p5:
      "executeNextStep (fst x5) ctx (snd x5) p4 = Inr p5"
      "steps p5 = [t1, t2, t3, t4, t5, t6]"
      "currentStepIndex p5 = 5"
      "plan_results p5 = [\<lparr>step = t1, result = r1, alternative = None\<rparr>, \<lparr>step = t2, result = r2, alternative = None\<rparr>, \<lparr>step = t3, result = r3, alternative = None\<rparr>, \<lparr>step = t4, result = r4, alternative = None\<rparr>, \<lparr>step = t5, result = r5, alternative = None\<rparr>]"
      "completed p5 = False"
      "objectsOnly (stateManager p5)"
      "statesOf (stateManager p5) = [(''task-1'', Some COMPLETED), (''task-2'', Some COMPLETED), (''task-3'', Some COMPLETED), (''task-4'', Some COMPLETED), (''task-5'', Some COMPLETED), (''task-verification'', Some PENDING)]"
    using p4 by (auto simp add: idents)
  have "\<exists>p'. executeNextStep (fst x6) ctx (snd x6) p5 = Inr p'
           \<and> steps p' = steps p5
           \<and> currentStepIndex p' = Suc (currentStepIndex p5)
           \<and> plan_results p' = plan_results p5 @ [\<lparr>step = t6, result = executeVerification ?five, alternative = None\<rparr>]
           \<and> completed p' = (length (steps p5) \<le> Suc (currentStepIndex p5))
           \<and> objectsOnly (stateManager p')
           \<and> statesOf (stateManager p') =
               AList.update (task_id (t6)) (Some COMPLETED) (statesOf (stateManager p5))"
  proof (rule step_succeeds)
    show "currentStepIndex p5 < length (steps p5)" using p5 by simp
    show "steps p5 ! currentStepIndex p5 = t6" using p5 by simp
    show "task_id (t6) \<noteq> []" by (simp add: idents)
    show "objectsOnly (stateManager p5)" using p5 by simp
    show "map_of (statesOf (stateManager p5)) (task_id (t6)) \<noteq> None"
      using p5 by (simp add: idents)
    show "valid (validateStepInputs (t6) p5)"
      using p5 r3 r4 r5 by (simp add: validateStepInputs_def hasSuccessful_def types)
    show "dispatch (fst x6) (t6) (plan_results p5) = Returns (executeVerification ?five)"
      using p5 r1 r2 r3 r4 r5 by (simp add: dispatch_def types)
  qed
  then obtain p6 where p6:
      "executeNextStep (fst x6) ctx (snd x6) p5 = Inr p6"
      "steps p6 = [t1, t2, t3, t4, t5, t6]"
      "currentStepIndex p6 = 6"
      "plan_results p6 = [\<lparr>step = t1, result = r1, alternative = None\<rparr>, \<lparr>step = t2, result = r2, alternative = None\<rparr>, \<lparr>step = t3, result = r3, alternative = None\<rparr>, \<lparr>step = t4, result = r4, alternative = None\<rparr>, \<lparr>step = t5, result = r5, alternative = None\<rparr>, \<lparr>step = t6, result = executeVerification ?five, alternative = None\<rparr>]"
      "completed p6 = True"
      "objectsOnly (stateManager p6)"
      "statesOf (stateManager p6) = [(''task-1'', Some COMPLETED), (''task-2'', Some COMPLETED), (''task-3'', Some COMPLETED), (''task-4'', Some COMPLETED), (''task-5'', Some COMPLETED), (''task-verification'', Some COMPLETED)]"
    using p5 by (auto simp add: idents)
  have run: "runPlan envs ctx ?p0 = Inr p6"
    unfolding envs by (simp add: p1(1) p2(1) p3(1) p4(1) p5(1) p6(1) del: executeNextStep.simps)
  have st: "getTaskStatus (stateManager p6) =
               Inr \<lparr>count_pending = 0, count_inProgress = 0, count_completed = 6,
                    count_failed = 0, count_skipped = 0, count_total = 6\<rparr>"
    by (simp add: getTaskStatus_objects[OF p6(6)] p6(7))
  have tys: "map (\<lambda>r. task_type (step r)) (plan_results p6) = typeOrder"
    by (simp add: p6(4) types typeOrder_def)
  show ?thesis
    using run p6(5) st tys by (simp add: p6(4))
qed

theorem default_plan_all_succeed_witness:
  "length (replicate 6 (allSucceed, 1::nat)) = 6
   \<and> list_all (\<lambda>x. succeeds (fst x)) (replicate 6 (allSucceed, 1::nat))
   \<and> (\<exists>p. runPlan (replicate 6 (allSucceed, 1)) ctx0 defaultPlan = Inr p
           \<and> completed p
           \<and> length (plan_results p) = 6
           \<and> map (\<lambda>r. task_type (step r)) (plan_results p) = typeOrder
           \<and> getTaskStatus (stateManager p) =
               Inr \<lparr>count_pending = 0, count_inProgress = 0, count_completed = 6,
                    count_failed = 0, count_skipped = 0, count_total = 6\<rparr>)"
proof -
  have l: "length (replicate 6 (allSucceed, 1::nat)) = 6" by simp
  have s: "list_all (\<lambda>x. succeeds (fst x)) (replicate 6 (allSucceed, 1::nat))"
    by (simp add: list_all_iff succeeds_def allSucceed_def okResult_def)
  from default_plan_all_succeed[OF l s, of ctx0 "''what is the weather''" 0]
  show ?thesis using l s unfolding defaultPlan_def by blast
qed

text \<open>
  C9, as stated, fails: when every call succeeds, the default plan is not completed after
  5 or fewer calls, and when it is completed, after the 6th, it has 6 results and 6
  completed tasks.
\<close>

theorem default_plan_counterexample:
  "list_all (\<lambda>n. case runPlan (replicate n (allSucceed, 1)) ctx0 defaultPlan of
                   Inl err \<Rightarrow> False | Inr p \<Rightarrow> \<not> completed p) [0, 1, 2, 3, 4, 5]
   \<and> (case runPlan (replicate 6 (allSucceed, 1)) ctx0 defaultPlan of
         Inl err \<Rightarrow> False
       | Inr p \<Rightarrow> completed p \<and> length (plan_results p) = 6
                  \<and> getTaskStatus (stateManager p) =
                      Inr \<lparr>count_pending = 0, count_inProgress = 0, count_completed = 6,
                           count_failed = 0, count_skipped = 0, count_total = 6\<rparr>)"
  by code_simp

subsection \<open>Fixing steps\<close>

text \<open>
  C5. The decomposer returns a single \<^verbatim>\<open>SYNTHESIS\<close> task. The first call completes
  \<^verbatim>\<open>task-memory\<close>. The second call finds the synthesis step without input, splices in a
  fixing step and calls \<^verbatim>\<open>initializePlan\<close>, which registers every step of the plan anew:
  \<^verbatim>\<open>task-memory\<close> is \<^verbatim>\<open>pending\<close> again.
\<close>

theorem completed_task_back_to_pending:
  "map task_id (steps synthesisOnly) = [''task-memory'', ''t1'', ''task-verification'']
   \<and> taskState (runPlan [(allSucceed, 1)] ctx0 synthesisOnly) ''task-memory'' = Some COMPLETED
   \<and> taskState (runPlan [(allSucceed, 1), (allSucceed, 2)] ctx0 synthesisOnly) ''task-memory''
       = Some PENDING"
  by code_simp













end
